theory Spec2Isabelle
  imports Main "HOL-Library.Word"
begin

section \<open>Data of the RPC engine (protocol.py)\<close>

text \<open>
  A datagram is a Python \<open>bytes\<close> object, an address the pair (host, port) that Twisted
  hands to \<open>datagramReceived\<close>. Times are integers counting microseconds, so that
  \<open>time.sleep(0.001)\<close> is a step of 1000 and the default window of 5 seconds is 5000000.
\<close>

type_synonym byte = "8 word"
type_synonym bytes = "byte list"
type_synonym address = "string \<times> nat"

text \<open>
  The Python objects that travel through the codec: what \<open>umsgpack.unpackb\<close> can return and
  what \<open>umsgpack.packb\<close> is given. A tuple is packed as an array, so the argument tuple of an
  outbound call is a \<open>PList\<close> here. Floats and extension objects are left out.
\<close>

datatype pyobj =
    PNone
  | PBool bool
  | PInt int
  | PStr string
  | PBytes bytes
  | PList "pyobj list"
  | PDict "(pyobj \<times> pyobj) list"

datatype mmsg =
    CouldNotReadPacket pyobj
  | TotalLengthExceeds8K

datatype error =
    MalformedMessage mmsg
  | SocketError int
  | KeyError bytes
  | TypeError
  | AlreadyCalledError
  | AlreadyCancelled
  | AlreadyCalled
  | AttributeError
  | UnpackException
  | PackException

text \<open>
  What a handler \<open>rpc_name(address, *args)\<close> does when \<open>defer.maybeDeferred\<close> calls it: it
  returns a value, it raises, or it returns a Deferred that has not fired yet.
\<close>

datatype hres = Returned pyobj | Raised string | Later

datatype attr = Callable "address \<Rightarrow> pyobj list \<Rightarrow> hres" | NotCallable

datatype failure = HandlerRaised string | CallbackRaised error

text \<open>One constructor for each \<open>log.msg\<close> and \<open>log.err\<close> of the source, with its arguments.\<close>

datatype logline =
    ReceivedDatagram address
  | DatagramTooSmall address
  | UnknownMessage address
  | UnknownMsgID bytes address
  | ReceivedResponse bytes address
  | NoCallableMethod pyobj
  | LoggedFailure failure
  | SendingResponse bytes address
  | NoReply bytes nat
  | CallingRemote string address bytes

datatype wres = WriteOk | WriteErr int

text \<open>
  The external codec (\<open>umsgpack\<close>) is a parameter of the engine: two functions that either
  raise or return.
\<close>

record codec =
  packb :: "pyobj \<Rightarrow> error + bytes"
  unpackb :: "bytes \<Rightarrow> error + pyobj"

text \<open>
  The engine together with the part of the world it acts on.
  \<^item> \<open>rpc\<close> is the lookup \<open>getattr(self, "rpc_%s" % funcname, None)\<close> as a function of the
    decoded \<open>funcname\<close>;
  \<^item> \<open>outstanding\<close> is the dict \<open>_outstanding\<close>: message id to (Deferred, DelayedCall), both
    kept as handles;
  \<^item> \<open>ndeferred\<close> counts the Deferreds created, \<open>fired\<close> holds the result each fired one was
    called back with;
  \<^item> \<open>scheduled\<close> are the reactor's delayed calls of \<open>_timeout\<close> (delay and message id),
    \<open>cancelled\<close> and \<open>called\<close> the flags of Twisted's DelayedCall;
  \<^item> \<open>sent\<close> is what the transport accepted, \<open>wscript\<close> the outcomes of the next calls of
    \<open>transport.write\<close> (a write after the script is accepted), \<open>now\<close> the clock, \<open>logs\<close> the
    log.
\<close>

record engine =
  noisy :: bool
  waitTimeout :: nat
  rpc :: "pyobj \<rightharpoonup> attr"
  outstanding :: "bytes \<rightharpoonup> (nat \<times> nat)"
  ndeferred :: nat
  fired :: "nat \<rightharpoonup> (bool \<times> pyobj)"
  ntimers :: nat
  scheduled :: "nat \<rightharpoonup> (nat \<times> bytes)"
  cancelled :: "nat set"
  called :: "nat set"
  sent :: "(bytes \<times> address) list"
  wscript :: "wres list"
  now :: int
  logs :: "logline list"

type_synonym 'a outcome = "(error + 'a) \<times> engine"

definition REQUEST_BYTE :: bytes where
  "REQUEST_BYTE = [0x02]"

definition RESPONSE_BYTE :: bytes where
  "RESPONSE_BYTE = [0x03]"

definition logline :: "logline \<Rightarrow> engine \<Rightarrow> engine" where
  "logline l s = s\<lparr>logs := logs s @ [l]\<rparr>"

definition lognoisy :: "logline \<Rightarrow> engine \<Rightarrow> engine" where
  "lognoisy l s = (if noisy s then logline l s else s)"

section \<open>send_all\<close>

text \<open>
  The loop of \<open>send_all\<close>, with \<open>future\<close> already computed. Each turn reads the clock; a
  write that raises errno 11 or 10055 sleeps one millisecond and goes round again, any other
  errno is raised again, a write that returns leaves the loop.
\<close>

function send_loop :: "int \<Rightarrow> engine \<Rightarrow> bytes \<Rightarrow> address \<Rightarrow> unit outcome" where
  "send_loop future s data address =
     (if now s < future then
        (case wscript s of
           [] \<Rightarrow> (Inr (), s\<lparr>sent := sent s @ [(data, address)]\<rparr>)
         | WriteOk # rest \<Rightarrow> (Inr (), s\<lparr>sent := sent s @ [(data, address)], wscript := rest\<rparr>)
         | WriteErr e # rest \<Rightarrow>
             (if e = 11 \<or> e = 10055
              then send_loop future (s\<lparr>wscript := rest, now := now s + 1000\<rparr>) data address
              else (Inl (SocketError e), s\<lparr>wscript := rest\<rparr>)))
      else (Inr (), s))"
  by pat_completeness auto
termination
  by (relation "measure (\<lambda>(future, s, data, address). nat (future - now s))") auto

definition send_all :: "engine \<Rightarrow> bytes \<Rightarrow> address \<Rightarrow> int \<Rightarrow> unit outcome" where
  "send_all s data address timeout = send_loop (now s + timeout) s data address"

section \<open>Deferreds and delayed calls\<close>

text \<open>
  \<open>Deferred.callback\<close> of Twisted: a Deferred that has been called back raises
  AlreadyCalledError; otherwise it takes the result. \<open>DelayedCall.cancel\<close>: raises on a
  call that is cancelled or was run, and marks it cancelled otherwise.
\<close>

definition callback :: "nat \<Rightarrow> bool \<times> pyobj \<Rightarrow> engine \<Rightarrow> unit outcome" where
  "callback d r s =
     (case fired s d of
        Some r0 \<Rightarrow> (Inl AlreadyCalledError, s)
      | None \<Rightarrow> (Inr (), s\<lparr>fired := (fired s)(d \<mapsto> r)\<rparr>))"

definition cancel :: "nat \<Rightarrow> engine \<Rightarrow> unit outcome" where
  "cancel t s =
     (if t \<in> cancelled s then (Inl AlreadyCancelled, s)
      else if t \<in> called s then (Inl AlreadyCalled, s)
      else (Inr (), s\<lparr>cancelled := insert t (cancelled s)\<rparr>))"

section \<open>Responses and timeouts\<close>

definition acceptResponse :: "engine \<Rightarrow> bytes \<Rightarrow> pyobj \<Rightarrow> address \<Rightarrow> unit outcome" where
  "acceptResponse s msgID data address =
     (case outstanding s msgID of
        None \<Rightarrow> (Inr (), logline (UnknownMsgID msgID address) s)
      | Some (d, t) \<Rightarrow>
          (case cancel t (lognoisy (ReceivedResponse msgID address) s) of
             (Inl e, s1) \<Rightarrow> (Inl e, s1)
           | (Inr u, s1) \<Rightarrow>
               (case callback d (True, data) s1 of
                  (Inl e, s2) \<Rightarrow> (Inl e, s2)
                | (Inr u, s2) \<Rightarrow> (Inr (), s2\<lparr>outstanding := (outstanding s2)(msgID := None)\<rparr>))))"

definition timeout :: "engine \<Rightarrow> bytes \<Rightarrow> unit outcome" where
  "timeout s msgID =
     (let s1 = logline (NoReply msgID (waitTimeout s)) s in
      case outstanding s1 msgID of
        None \<Rightarrow> (Inl (KeyError msgID), s1)
      | Some (d, t) \<Rightarrow>
          (case callback d (False, PNone) s1 of
             (Inl e, s2) \<Rightarrow> (Inl e, s2)
           | (Inr u, s2) \<Rightarrow> (Inr (), s2\<lparr>outstanding := (outstanding s2)(msgID := None)\<rparr>)))"

text \<open>
  The reactor reaching the time of delayed call \<open>t\<close>: a call that was cancelled or has run
  is not run; otherwise it is marked as called and \<open>_timeout(msgID)\<close> runs.
\<close>

definition fire :: "engine \<Rightarrow> nat \<Rightarrow> unit outcome" where
  "fire s t =
     (case scheduled s t of
        None \<Rightarrow> (Inr (), s)
      | Some (delay, msgID) \<Rightarrow>
          (if t \<in> cancelled s \<or> t \<in> called s then (Inr (), s)
           else timeout (s\<lparr>called := insert t (called s)\<rparr>) msgID))"

section \<open>Requests\<close>

text \<open>\<open>isinstance(data, list)\<close>, \<open>len(data) == 2\<close> and \<open>funcname, args = data\<close>.\<close>

fun request_shape :: "pyobj \<Rightarrow> (pyobj \<times> pyobj) option" where
  "request_shape (PList [funcname, args]) = Some (funcname, args)"
| "request_shape data = None"

text \<open>
  The star of \<open>f(address, *args)\<close>: Python iterates \<open>args\<close>, whatever it is. A list gives its
  elements, a string its characters, bytes their numbers, a dict its keys; None, a bool and
  an int are not iterable.
\<close>

fun star :: "pyobj \<Rightarrow> error + pyobj list" where
  "star (PList xs) = Inr xs"
| "star (PStr cs) = Inr (map (\<lambda>ch. PStr [ch]) cs)"
| "star (PBytes bs) = Inr (map (\<lambda>b. PInt (uint b)) bs)"
| "star (PDict kvs) = Inr (map fst kvs)"
| "star PNone = Inl TypeError"
| "star (PBool b) = Inl TypeError"
| "star (PInt i) = Inl TypeError"

definition sendResponse :: "codec \<Rightarrow> engine \<Rightarrow> pyobj \<Rightarrow> bytes \<Rightarrow> address \<Rightarrow> unit outcome" where
  "sendResponse c s response msgID address =
     (let s1 = lognoisy (SendingResponse msgID address) s in
      case packb c response of
        Inl e \<Rightarrow> (Inl e, s1)
      | Inr p \<Rightarrow> send_all s1 (RESPONSE_BYTE @ msgID @ p) address 5000000)"

definition onError :: "engine \<Rightarrow> failure \<Rightarrow> engine" where
  "onError s err = logline (LoggedFailure err) s"

text \<open>
  The chain \<open>d.addCallback(self._sendResponse, msgID, address); d.addErrback(self._onError)\<close>
  run on what the handler did. An exception of \<open>_sendResponse\<close> becomes a failure of the
  Deferred, which \<open>_onError\<close> logs and hands on: it does not reach the caller of
  \<open>_acceptRequest\<close>.
\<close>

definition runCallbacks :: "codec \<Rightarrow> engine \<Rightarrow> hres \<Rightarrow> bytes \<Rightarrow> address \<Rightarrow> engine" where
  "runCallbacks c s r msgID address =
     (case r of
        Returned v \<Rightarrow>
          (case sendResponse c s v msgID address of
             (Inr u, s1) \<Rightarrow> s1
           | (Inl e, s1) \<Rightarrow> onError s1 (CallbackRaised e))
      | Raised x \<Rightarrow> onError s (HandlerRaised x)
      | Later \<Rightarrow> s)"

definition acceptRequest :: "codec \<Rightarrow> engine \<Rightarrow> bytes \<Rightarrow> pyobj \<Rightarrow> address \<Rightarrow> unit outcome" where
  "acceptRequest c s msgID data address =
     (case request_shape data of
        None \<Rightarrow> (Inl (MalformedMessage (CouldNotReadPacket data)), s)
      | Some (funcname, args) \<Rightarrow>
          (case rpc s funcname of
             None \<Rightarrow> (Inr (), logline (NoCallableMethod funcname) s)
           | Some NotCallable \<Rightarrow> (Inr (), logline (NoCallableMethod funcname) s)
           | Some (Callable f) \<Rightarrow>
               (case star args of
                  Inl e \<Rightarrow> (Inl e, s)
                | Inr argl \<Rightarrow> (Inr (), runCallbacks c s (f address argl) msgID address))))"

section \<open>datagramReceived\<close>

text \<open>
  \<open>datagram[1:21]\<close> is \<open>take 20 (drop 1 datagram)\<close>, \<open>datagram[21:]\<close> is \<open>drop 21 datagram\<close>
  and \<open>datagram[:1]\<close> is \<open>take 1 datagram\<close>. The payload is unpacked before the tag is looked
  at, as in the source.
\<close>

definition datagramReceived :: "codec \<Rightarrow> engine \<Rightarrow> bytes \<Rightarrow> address \<Rightarrow> unit outcome" where
  "datagramReceived c s datagram address =
     (let s1 = lognoisy (ReceivedDatagram address) s in
      if length datagram < 22 then (Inr (), logline (DatagramTooSmall address) s1)
      else
        (let msgID = take 20 (drop 1 datagram) in
         case unpackb c (drop 21 datagram) of
           Inl e \<Rightarrow> (Inl e, s1)
         | Inr data \<Rightarrow>
             (if take 1 datagram = REQUEST_BYTE then acceptRequest c s1 msgID data address
              else if take 1 datagram = RESPONSE_BYTE then acceptResponse s1 msgID data address
              else (Inr (), logline (UnknownMessage address) s1))))"

section \<open>Outbound calls\<close>

text \<open>
  The closure \<open>func\<close> that \<open>__getattr__\<close> returns for \<open>name\<close>. The message id is
  \<open>sha1(os.urandom(32)).digest()\<close>, a parameter here. On success the result is the handle of
  the new Deferred.
\<close>

definition func :: "codec \<Rightarrow> string \<Rightarrow> engine \<Rightarrow> address \<Rightarrow> pyobj list \<Rightarrow> bytes \<Rightarrow> nat outcome" where
  "func c name s address args msgID =
     (case packb c (PList [PStr name, PList args]) of
        Inl e \<Rightarrow> (Inl e, s)
      | Inr data \<Rightarrow>
          (if length data > 8192 then (Inl (MalformedMessage TotalLengthExceeds8K), s)
           else
             (case send_all (lognoisy (CallingRemote name address msgID) s)
                     (REQUEST_BYTE @ msgID @ data) address 5000000 of
                (Inl e, s1) \<Rightarrow> (Inl e, s1)
              | (Inr u, s1) \<Rightarrow>
                  (Inr (ndeferred s1),
                   s1\<lparr>ndeferred := Suc (ndeferred s1),
                      ntimers := Suc (ntimers s1),
                      scheduled := (scheduled s1)(ntimers s1 \<mapsto> (waitTimeout s1, msgID)),
                      outstanding := (outstanding s1)(msgID \<mapsto> (ndeferred s1, ntimers s1))\<rparr>))))"

text \<open>
  \<open>__getattr__\<close> runs for a name that normal lookup did not find. A name that starts with
  \<open>_\<close> or \<open>rpc_\<close> stays missing (\<open>object\<close> has no \<open>__getattr__\<close>, so the call raises
  AttributeError); any other name gives the remote call of that name.
\<close>

definition startswith :: "string \<Rightarrow> string \<Rightarrow> bool" where
  "startswith name p = (take (length p) name = p)"

definition getattr ::
  "string \<Rightarrow> error + (codec \<Rightarrow> engine \<Rightarrow> address \<Rightarrow> pyobj list \<Rightarrow> bytes \<Rightarrow> nat outcome)" where
  "getattr name =
     (if startswith name ''_'' \<or> startswith name ''rpc_'' then Inl AttributeError
      else Inr (\<lambda>c. func c name))"

section \<open>A fragment of MessagePack\<close>

text \<open>
  To run the engine on concrete datagrams the codec parameter is instantiated with the
  MessagePack format on a fragment: nil (\<open>0xc0\<close>), false and true (\<open>0xc2\<close>, \<open>0xc3\<close>), the
  positive fixint (\<open>0x00\<close> to \<open>0x7f\<close>), ASCII strings as fixstr (\<open>0xa0\<close> to \<open>0xbf\<close>, at
  most 31 characters), str 8 (\<open>0xd9\<close>) and str 16 (\<open>0xda\<close>, big-endian length), and the
  fixarray of at most 15 elements (\<open>0x90\<close> to \<open>0x9f\<close>). \<open>0xc1\<close> is the code
  that MessagePack never uses. Outside the fragment both functions answer with an error;
  they are used at inputs of the fragment only. As \<open>umsgpack.unpackb\<close> does, \<open>mp_unpackb\<close>
  reads one object and does not look at the bytes after it.
\<close>

definition ascii :: "string \<Rightarrow> bool" where
  "ascii cs = list_all (\<lambda>ch. (of_char ch :: nat) < 128) cs"

fun mp_pack :: "pyobj \<Rightarrow> error + bytes"
  and mp_pack_list :: "pyobj list \<Rightarrow> error + bytes" where
  "mp_pack PNone = Inr [0xc0]"
| "mp_pack (PBool b) = Inr [if b then 0xc3 else 0xc2]"
| "mp_pack (PInt i) = (if 0 \<le> i \<and> i < 128 then Inr [word_of_int i] else Inl PackException)"
| "mp_pack (PStr cs) =
     (if \<not> ascii cs then Inl PackException
      else if length cs < 32
      then Inr ((0xa0 + of_nat (length cs)) # map (\<lambda>ch. of_nat (of_char ch)) cs)
      else if length cs < 256
      then Inr (0xd9 # of_nat (length cs) # map (\<lambda>ch. of_nat (of_char ch)) cs)
      else if length cs < 65536
      then Inr (0xda # of_nat (length cs div 256) # of_nat (length cs mod 256) #
                map (\<lambda>ch. of_nat (of_char ch)) cs)
      else Inl PackException)"
| "mp_pack (PBytes bs) = Inl PackException"
| "mp_pack (PList xs) =
     (if length xs < 16
      then (case mp_pack_list xs of
              Inl e \<Rightarrow> Inl e
            | Inr bs \<Rightarrow> Inr ((0x90 + of_nat (length xs)) # bs))
      else Inl PackException)"
| "mp_pack (PDict kvs) = Inl PackException"
| "mp_pack_list [] = Inr []"
| "mp_pack_list (x # xs) =
     (case mp_pack x of
        Inl e \<Rightarrow> Inl e
      | Inr b \<Rightarrow> (case mp_pack_list xs of Inl e \<Rightarrow> Inl e | Inr bs \<Rightarrow> Inr (b @ bs)))"

definition mp_str :: "nat \<Rightarrow> bytes \<Rightarrow> error + (pyobj \<times> bytes)" where
  "mp_str k bs =
     (if length bs < k \<or> \<not> list_all (\<lambda>x. unat x < 128) (take k bs) then Inl UnpackException
      else Inr (PStr (map (\<lambda>x. char_of (unat x)) (take k bs)), drop k bs))"

text \<open>
  The reader takes fuel, one unit for each nesting level; the length of the input is
  always enough, since every level consumes a byte.
\<close>

fun mp_unpack :: "nat \<Rightarrow> bytes \<Rightarrow> error + (pyobj \<times> bytes)"
  and mp_unpack_n :: "nat \<Rightarrow> nat \<Rightarrow> bytes \<Rightarrow> error + (pyobj list \<times> bytes)" where
  "mp_unpack 0 bs = Inl UnpackException"
| "mp_unpack (Suc fuel) [] = Inl UnpackException"
| "mp_unpack (Suc fuel) (b # bs) =
     (let n = unat b in
      if n < 0x80 then Inr (PInt (int n), bs)
      else if 0x90 \<le> n \<and> n < 0xa0 then
        (case mp_unpack_n fuel (n - 0x90) bs of
           Inl e \<Rightarrow> Inl e
         | Inr (xs, rest) \<Rightarrow> Inr (PList xs, rest))
      else if 0xa0 \<le> n \<and> n < 0xc0 then mp_str (n - 0xa0) bs
      else if n = 0xc0 then Inr (PNone, bs)
      else if n = 0xc2 then Inr (PBool False, bs)
      else if n = 0xc3 then Inr (PBool True, bs)
      else if n = 0xd9 then
        (case bs of
           l1 # bs1 \<Rightarrow> mp_str (unat l1) bs1
         | [] \<Rightarrow> Inl UnpackException)
      else if n = 0xda then
        (case bs of
           l1 # l2 # bs2 \<Rightarrow> mp_str (unat l1 * 256 + unat l2) bs2
         | _ \<Rightarrow> Inl UnpackException)
      else Inl UnpackException)"
| "mp_unpack_n fuel 0 bs = Inr ([], bs)"
| "mp_unpack_n fuel (Suc k) bs =
     (case mp_unpack fuel bs of
        Inl e \<Rightarrow> Inl e
      | Inr (x, rest) \<Rightarrow>
          (case mp_unpack_n fuel k rest of
             Inl e \<Rightarrow> Inl e
           | Inr (xs, rest') \<Rightarrow> Inr (x # xs, rest')))"

definition mp_unpackb :: "bytes \<Rightarrow> error + pyobj" where
  "mp_unpackb bs = (case mp_unpack (length bs) bs of Inl e \<Rightarrow> Inl e | Inr (x, rest) \<Rightarrow> Inr x)"

definition msgpack :: codec where
  "msgpack = \<lparr>packb = mp_pack, unpackb = mp_unpackb\<rparr>"

section \<open>Starting state and example engines\<close>

text \<open>\<open>__init__\<close>: the wait window and an empty table; nothing sent, scheduled or logged.\<close>

definition init :: "nat \<Rightarrow> (pyobj \<rightharpoonup> attr) \<Rightarrow> engine" where
  "init w handlers =
     \<lparr>noisy = False, waitTimeout = w, rpc = handlers, outstanding = Map.empty,
      ndeferred = 0, fired = Map.empty, ntimers = 0, scheduled = Map.empty,
      cancelled = {}, called = {}, sent = [], wscript = [], now = 0, logs = []\<rparr>"

text \<open>The engine with its log erased, to compare two engines up to what they logged.\<close>

definition unlogged :: "engine \<Rightarrow> engine" where
  "unlogged s = s\<lparr>logs := []\<rparr>"

text \<open>
  A call that is outstanding under \<open>msgID\<close> with Deferred \<open>d\<close> and delayed call \<open>t\<close>, as
  \<open>func\<close> leaves it: the Deferred has not fired, and the delayed call of \<open>_timeout(msgID)\<close>
  is neither cancelled nor run.
\<close>

definition pending :: "engine \<Rightarrow> bytes \<Rightarrow> nat \<Rightarrow> nat \<Rightarrow> bool" where
  "pending s msgID d t =
     (outstanding s msgID = Some (d, t) \<and> fired s d = None \<and>
      map_option snd (scheduled s t) = Some msgID \<and> t \<notin> cancelled s \<and> t \<notin> called s)"

text \<open>The transport takes the next write.\<close>

definition writable :: "engine \<Rightarrow> bool" where
  "writable s = (case wscript s of [] \<Rightarrow> True | w # rest \<Rightarrow> w = WriteOk)"

text \<open>
  Two engines for running the protocol on concrete datagrams: \<open>caller\<close> has no handler,
  \<open>responder\<close> has \<open>rpc_echo\<close>, which returns its argument list.
\<close>

definition echo :: "address \<Rightarrow> pyobj list \<Rightarrow> hres" where
  "echo address args = Returned (PList args)"

definition caller :: engine where
  "caller = init 5 Map.empty"

definition responder :: engine where
  "responder = init 5 [PStr ''echo'' \<mapsto> Callable echo]"

definition alice :: address where
  "alice = (''10.0.0.1'', 4001)"

definition bob :: address where
  "bob = (''10.0.0.2'', 4002)"

definition mid :: bytes where
  "mid = replicate 20 0x5a"

definition echo_payload :: bytes where
  "echo_payload = [0x92, 0xa4, 0x65, 0x63, 0x68, 0x6f, 0x91, 0xa1, 0x78]"

definition x_payload :: bytes where
  "x_payload = [0x91, 0xa1, 0x78]"

text \<open>An argument whose encoding is over the limit of 8192 bytes.\<close>

definition long_arg :: pyobj where
  "long_arg = PStr (replicate 9000 CHR ''a'')"

definition long_payload :: bytes where
  "long_payload = [0x92, 0xa4, 0x65, 0x63, 0x68, 0x6f, 0x91, 0xda, 0x23, 0x28] @ replicate 9000 0x61"

text \<open>The caller after \<open>echo(bob, "x")\<close> with message id \<open>mid\<close>: one call is outstanding.\<close>

definition waiting :: engine where
  "waiting = caller\<lparr>ndeferred := 1, ntimers := 1, scheduled := [0 \<mapsto> (5, mid)],
                     outstanding := [mid \<mapsto> (0, 0)],
                     sent := [(REQUEST_BYTE @ mid @ echo_payload, bob)]\<rparr>"

section \<open>Frames, traffic and handles\<close>

text \<open>
  The checks that \<open>datagramReceived\<close> makes on a datagram before it dispatches: the size and
  the tag byte. The message id is the slice \<open>[1:21]\<close>.
\<close>

definition wellframed :: "bytes \<Rightarrow> bool" where
  "wellframed datagram =
     (22 \<le> length datagram \<and>
      (take 1 datagram = REQUEST_BYTE \<or> take 1 datagram = RESPONSE_BYTE) \<and>
      length (take 20 (drop 1 datagram)) = 20)"

text \<open>What the transport accepted between the engine \<open>s\<close> and the later engine \<open>s'\<close>.\<close>

definition emitted :: "engine \<Rightarrow> engine \<Rightarrow> (bytes \<times> address) list" where
  "emitted s s' = drop (length (sent s)) (sent s')"

definition frame_of :: "bytes \<Rightarrow> bytes \<Rightarrow> bytes \<times> address \<Rightarrow> bool" where
  "frame_of tag msgID x =
     (wellframed (fst x) \<and> take 1 (fst x) = tag \<and> take 20 (drop 1 (fst x)) = msgID)"

text \<open>
  The handles that the next call takes are unused: Python creates a new Deferred and a new
  DelayedCall, which no earlier callback or cancellation can have touched.
\<close>

definition fresh_handles :: "engine \<Rightarrow> bool" where
  "fresh_handles s =
     (fired s (ndeferred s) = None \<and> ntimers s \<notin> cancelled s \<and> ntimers s \<notin> called s)"

section \<open>The send loop\<close>

declare send_loop.simps [simp del]

lemma send_loop_retry:
  "set es \<subseteq> {11, 10055} \<Longrightarrow> wscript s = map WriteErr es @ rest \<Longrightarrow>
   now s + 1000 * int (length es) < future \<Longrightarrow>
   send_loop future s data address =
   send_loop future (s\<lparr>wscript := rest, now := now s + 1000 * int (length es)\<rparr>) data address"
proof (induction es arbitrary: s)
  case Nil
  then have "s\<lparr>wscript := rest, now := now s + 1000 * int (length ([] :: int list))\<rparr> = s"
    by (cases s) simp
  then show ?case by simp
next
  case (Cons e es)
  let ?s = "s\<lparr>wscript := map WriteErr es @ rest, now := now s + 1000\<rparr>"
  from Cons.prems have e: "e = 11 \<or> e = 10055" and inwin: "now s < future" by auto
  have "send_loop future s data address = send_loop future ?s data address"
    using e inwin Cons.prems(2) by (subst send_loop.simps) auto
  also have "\<dots> = send_loop future (?s\<lparr>wscript := rest, now := now ?s + 1000 * int (length es)\<rparr>) data address"
    using Cons.prems by (intro Cons.IH) auto
  finally show ?case by (simp add: algebra_simps)
qed

lemma send_loop_exhausted:
  "set es \<subseteq> {11, 10055} \<Longrightarrow> wscript s = map WriteErr es @ rest \<Longrightarrow>
   future \<le> now s + 1000 * int (length es) \<Longrightarrow>
   fst (send_loop future s data address) = Inr () \<and>
   sent (snd (send_loop future s data address)) = sent s"
proof (induction es arbitrary: s)
  case Nil
  then show ?case by (subst (1 2) send_loop.simps) simp
next
  case (Cons e es)
  let ?s = "s\<lparr>wscript := map WriteErr es @ rest, now := now s + 1000\<rparr>"
  from Cons.prems have e: "e = 11 \<or> e = 10055" by auto
  show ?case
  proof (cases "now s < future")
    case True
    have step: "send_loop future s data address = send_loop future ?s data address"
      using e True Cons.prems(2) by (subst send_loop.simps) auto
    have "fst (send_loop future ?s data address) = Inr () \<and>
          sent (snd (send_loop future ?s data address)) = sent ?s"
      using Cons.prems by (intro Cons.IH) auto
    then show ?thesis by (simp add: step)
  next
    case False
    then show ?thesis by (subst (1 2) send_loop.simps) simp
  qed
qed

text \<open>
  C9. The resilient send, for a transport whose next writes raise the would-block errnos
  \<open>es\<close> (11 or 10055) one after the other. If the write after them is accepted inside the
  window, the datagram is sent after one millisecond of sleep for each of them; if it raises
  any other errno inside the window, that error is raised at once and nothing is sent; if
  the would-block errors last to the end of the window, \<open>send_all\<close> returns without an
  error and the datagram was never sent.
\<close>

theorem send_all_resilient:
  "(set es \<subseteq> {11, 10055} \<and> wscript s = map WriteErr es @ WriteOk # rest \<and>
      1000 * int (length es) < window \<longrightarrow>
      send_all s data address window =
        (Inr (), s\<lparr>sent := sent s @ [(data, address)], wscript := rest,
                    now := now s + 1000 * int (length es)\<rparr>)) \<and>
   (set es \<subseteq> {11, 10055} \<and> wscript s = map WriteErr es @ WriteErr e # rest \<and>
      e \<noteq> 11 \<and> e \<noteq> 10055 \<and> 1000 * int (length es) < window \<longrightarrow>
      send_all s data address window =
        (Inl (SocketError e), s\<lparr>wscript := rest, now := now s + 1000 * int (length es)\<rparr>)) \<and>
   (set es \<subseteq> {11, 10055} \<and> wscript s = map WriteErr es @ rest \<and>
      window \<le> 1000 * int (length es) \<longrightarrow>
      fst (send_all s data address window) = Inr () \<and>
      sent (snd (send_all s data address window)) = sent s)"
proof (intro conjI impI)
  assume a: "set es \<subseteq> {11, 10055} \<and> wscript s = map WriteErr es @ WriteOk # rest \<and>
      1000 * int (length es) < window"
  then have "send_all s data address window =
      send_loop (now s + window) (s\<lparr>wscript := WriteOk # rest, now := now s + 1000 * int (length es)\<rparr>) data address"
    unfolding send_all_def by (intro send_loop_retry) auto
  also have "\<dots> = (Inr (), s\<lparr>sent := sent s @ [(data, address)], wscript := rest,
                    now := now s + 1000 * int (length es)\<rparr>)"
    using a by (subst send_loop.simps) simp
  finally show "send_all s data address window =
        (Inr (), s\<lparr>sent := sent s @ [(data, address)], wscript := rest,
                    now := now s + 1000 * int (length es)\<rparr>)" .
next
  assume a: "set es \<subseteq> {11, 10055} \<and> wscript s = map WriteErr es @ WriteErr e # rest \<and>
      e \<noteq> 11 \<and> e \<noteq> 10055 \<and> 1000 * int (length es) < window"
  then have "send_all s data address window =
      send_loop (now s + window) (s\<lparr>wscript := WriteErr e # rest, now := now s + 1000 * int (length es)\<rparr>) data address"
    unfolding send_all_def by (intro send_loop_retry) auto
  also have "\<dots> = (Inl (SocketError e), s\<lparr>wscript := rest, now := now s + 1000 * int (length es)\<rparr>)"
    using a by (subst send_loop.simps) simp
  finally show "send_all s data address window =
        (Inl (SocketError e), s\<lparr>wscript := rest, now := now s + 1000 * int (length es)\<rparr>)" .
next
  assume a: "set es \<subseteq> {11, 10055} \<and> wscript s = map WriteErr es @ rest \<and>
      window \<le> 1000 * int (length es)"
  then show "fst (send_all s data address window) = Inr ()"
    unfolding send_all_def using send_loop_exhausted [of es s rest "now s + window" data address] by simp
  from a show "sent (snd (send_all s data address window)) = sent s"
    unfolding send_all_def using send_loop_exhausted [of es s rest "now s + window" data address] by simp
qed

theorem send_all_resilient_witness:
  "send_all (caller\<lparr>wscript := [WriteErr 11, WriteErr 10055, WriteOk]\<rparr>) echo_payload bob 5000000 =
     (Inr (), caller\<lparr>sent := [(echo_payload, bob)], wscript := [], now := 2000\<rparr>) \<and>
   send_all (caller\<lparr>wscript := [WriteErr 11, WriteErr 13, WriteOk]\<rparr>) echo_payload bob 5000000 =
     (Inl (SocketError 13), caller\<lparr>wscript := [WriteOk], now := 1000\<rparr>) \<and>
   fst (send_all (caller\<lparr>wscript := [WriteErr 11, WriteErr 11, WriteOk]\<rparr>) echo_payload bob 2000) = Inr () \<and>
   sent (snd (send_all (caller\<lparr>wscript := [WriteErr 11, WriteErr 11, WriteOk]\<rparr>) echo_payload bob 2000)) = []"
  using send_all_resilient [where es = "[11, 10055]" and s = "caller\<lparr>wscript := [WriteErr 11, WriteErr 10055, WriteOk]\<rparr>"
      and rest = "[]" and window = 5000000 and data = echo_payload and address = bob and e = 13]
    send_all_resilient [where es = "[11]" and s = "caller\<lparr>wscript := [WriteErr 11, WriteErr 13, WriteOk]\<rparr>"
      and rest = "[WriteOk]" and window = 5000000 and data = echo_payload and address = bob and e = 13]
    send_all_resilient [where es = "[11, 11]" and s = "caller\<lparr>wscript := [WriteErr 11, WriteErr 11, WriteOk]\<rparr>"
      and rest = "[WriteOk]" and window = 2000 and data = echo_payload and address = bob and e = 13]
  by (simp add: caller_def init_def)

section \<open>The log does not steer the engine\<close>

lemma unlogged_logs [simp]: "unlogged (s\<lparr>logs := l\<rparr>) = unlogged s"
  by (simp add: unlogged_def)

lemma unlogged_logline [simp]: "unlogged (logline x s) = unlogged s"
  by (simp add: unlogged_def logline_def)

lemma unlogged_eqD: "unlogged s = unlogged s' \<Longrightarrow> s' = s\<lparr>logs := logs s'\<rparr>"
  by (cases s, cases s') (simp add: unlogged_def)

lemma send_loop_logs:
  "send_loop future (s\<lparr>logs := l\<rparr>) data address =
   (fst (send_loop future s data address), (snd (send_loop future s data address))\<lparr>logs := l\<rparr>)"
proof (induction future s data address rule: send_loop.induct)
  case (1 future s data address)
  show ?case
  proof (cases "now s < future")
    case False
    then show ?thesis
      by (simp add: send_loop.simps [of future s] send_loop.simps [of future "s\<lparr>logs := l\<rparr>"])
  next
    case True
    show ?thesis
    proof (cases "wscript s")
      case Nil
      with True show ?thesis
        by (simp add: send_loop.simps [of future s] send_loop.simps [of future "s\<lparr>logs := l\<rparr>"])
    next
      case (Cons w rest)
      show ?thesis
      proof (cases w)
        case WriteOk
        with True Cons show ?thesis
          by (simp add: send_loop.simps [of future s] send_loop.simps [of future "s\<lparr>logs := l\<rparr>"])
      next
        case (WriteErr e)
        show ?thesis
        proof (cases "e = 11 \<or> e = 10055")
          case False
          with True Cons WriteErr show ?thesis
            by (simp add: send_loop.simps [of future s] send_loop.simps [of future "s\<lparr>logs := l\<rparr>"])
        next
          case retry: True
          have reorder: "s\<lparr>logs := l\<rparr>\<lparr>wscript := rest, now := now s + 1000\<rparr> =
                s\<lparr>wscript := rest, now := now s + 1000\<rparr>\<lparr>logs := l\<rparr>"
            by (cases s) simp
          have "send_loop future (s\<lparr>wscript := rest, now := now s + 1000\<rparr>\<lparr>logs := l\<rparr>) data address =
                (fst (send_loop future (s\<lparr>wscript := rest, now := now s + 1000\<rparr>) data address),
                 (snd (send_loop future (s\<lparr>wscript := rest, now := now s + 1000\<rparr>) data address))\<lparr>logs := l\<rparr>)"
            using "1.IH" [OF True Cons WriteErr retry] .
          with True Cons WriteErr retry show ?thesis
            by (simp add: send_loop.simps [of future s] send_loop.simps [of future "s\<lparr>logs := l\<rparr>"]
                  reorder del: engine.update_convs)
        qed
      qed
    qed
  qed
qed

lemma send_all_logs:
  "send_all (s\<lparr>logs := l\<rparr>) data address window =
   (fst (send_all s data address window), (snd (send_all s data address window))\<lparr>logs := l\<rparr>)"
  by (simp add: send_all_def send_loop_logs)

lemma send_all_unlogged:
  assumes "unlogged s = unlogged s'"
  shows "fst (send_all s data address window) = fst (send_all s' data address window) \<and>
         unlogged (snd (send_all s data address window)) = unlogged (snd (send_all s' data address window))"
proof -
  have "s' = s\<lparr>logs := logs s'\<rparr>" using assms by (rule unlogged_eqD)
  then have "send_all s' data address window =
     (fst (send_all s data address window), (snd (send_all s data address window))\<lparr>logs := logs s'\<rparr>)"
    using send_all_logs [where s = s and l = "logs s'"] by simp
  then show ?thesis by simp
qed

lemma unlogged_lognoisy [simp]: "unlogged (lognoisy x s) = unlogged s"
  by (simp add: lognoisy_def)

lemma acceptResponse_logs:
  "fst (acceptResponse (s\<lparr>logs := l\<rparr>) msgID data address) = fst (acceptResponse s msgID data address) \<and>
   unlogged (snd (acceptResponse (s\<lparr>logs := l\<rparr>) msgID data address)) =
   unlogged (snd (acceptResponse s msgID data address))"
  by (auto simp: acceptResponse_def cancel_def callback_def lognoisy_def logline_def unlogged_def
      split: option.splits)

lemma acceptResponse_unlogged:
  assumes "unlogged s = unlogged s'"
  shows "fst (acceptResponse s msgID data address) = fst (acceptResponse s' msgID data address) \<and>
         unlogged (snd (acceptResponse s msgID data address)) =
         unlogged (snd (acceptResponse s' msgID data address))"
proof -
  have "s' = s\<lparr>logs := logs s'\<rparr>" using assms by (rule unlogged_eqD)
  then show ?thesis
    using acceptResponse_logs [where s = s and l = "logs s'"] by simp
qed

lemma sendResponse_logs:
  "fst (sendResponse c (s\<lparr>logs := l\<rparr>) v msgID address) = fst (sendResponse c s v msgID address) \<and>
   unlogged (snd (sendResponse c (s\<lparr>logs := l\<rparr>) v msgID address)) =
   unlogged (snd (sendResponse c s v msgID address))"
  by (auto simp: sendResponse_def Let_def lognoisy_def logline_def send_all_logs
      split: sum.splits)

lemma runCallbacks_logs:
  "unlogged (runCallbacks c (s\<lparr>logs := l\<rparr>) r msgID address) = unlogged (runCallbacks c s r msgID address)"
proof (cases r)
  case (Returned v)
  obtain r1 s1 where a: "sendResponse c s v msgID address = (r1, s1)" by fastforce
  obtain r2 s2 where b: "sendResponse c (s\<lparr>logs := l\<rparr>) v msgID address = (r2, s2)" by fastforce
  from sendResponse_logs [where c = c and s = s and l = l and v = v and msgID = msgID and address = address] a b
  have "r2 = r1" and "unlogged s2 = unlogged s1" by simp_all
  with Returned a b show ?thesis
    by (simp add: runCallbacks_def onError_def split: sum.splits)
next
  case (Raised x)
  then show ?thesis by (simp add: runCallbacks_def onError_def)
next
  case Later
  then show ?thesis by (simp add: runCallbacks_def)
qed

lemma acceptRequest_logs:
  "fst (acceptRequest c (s\<lparr>logs := l\<rparr>) msgID data address) = fst (acceptRequest c s msgID data address) \<and>
   unlogged (snd (acceptRequest c (s\<lparr>logs := l\<rparr>) msgID data address)) =
   unlogged (snd (acceptRequest c s msgID data address))"
  by (auto simp: acceptRequest_def runCallbacks_logs split: option.splits attr.splits sum.splits)

lemma acceptRequest_unlogged:
  assumes "unlogged s = unlogged s'"
  shows "fst (acceptRequest c s msgID data address) = fst (acceptRequest c s' msgID data address) \<and>
         unlogged (snd (acceptRequest c s msgID data address)) =
         unlogged (snd (acceptRequest c s' msgID data address))"
proof -
  have "s' = s\<lparr>logs := logs s'\<rparr>" using assms by (rule unlogged_eqD)
  then show ?thesis
    using acceptRequest_logs [where s = s and l = "logs s'"] by simp
qed

lemma datagramReceived_unlogged:
  assumes "unlogged s = unlogged s'"
  shows "fst (datagramReceived c s datagram address) = fst (datagramReceived c s' datagram address) \<and>
         unlogged (snd (datagramReceived c s datagram address)) =
         unlogged (snd (datagramReceived c s' datagram address))"
proof -
  let ?s1 = "lognoisy (ReceivedDatagram address) s"
  let ?s1' = "lognoisy (ReceivedDatagram address) s'"
  have eq: "unlogged ?s1 = unlogged ?s1'" using assms by simp
  show ?thesis
    using acceptRequest_unlogged [OF eq] acceptResponse_unlogged [OF eq] eq
    by (simp add: datagramReceived_def Let_def split: sum.splits)
qed

section \<open>Receiving datagrams\<close>

lemma pack_echo: "mp_pack (PList [PStr ''echo'', PList [PStr ''x'']]) = Inr echo_payload"
  by code_simp

lemma unpack_echo: "mp_unpackb echo_payload = Inr (PList [PStr ''echo'', PList [PStr ''x'']])"
  by code_simp

lemma pack_x: "mp_pack (PList [PStr ''x'']) = Inr x_payload"
  by code_simp

lemma unpack_x: "mp_unpackb x_payload = Inr (PList [PStr ''x''])"
  by code_simp

declare mp_pack.simps [simp del] mp_pack_list.simps [simp del]

lemma length_payloads [simp]: "length echo_payload = 9" "length x_payload = 3"
  by (simp_all add: echo_payload_def x_payload_def)

lemma send_all_writable:
  assumes "writable s" and "0 < window"
  shows "send_all s data address window =
         (Inr (), s\<lparr>sent := sent s @ [(data, address)], wscript := tl (wscript s)\<rparr>)"
proof (cases "wscript s")
  case Nil
  then have "s\<lparr>sent := sent s @ [(data, address)], wscript := tl (wscript s)\<rparr> =
             s\<lparr>sent := sent s @ [(data, address)]\<rparr>"
    by (cases s) simp
  with Nil assms show ?thesis
    by (simp add: send_all_def send_loop.simps [of "now s + window" s])
next
  case (Cons w rest)
  with assms show ?thesis
    by (simp add: send_all_def writable_def send_loop.simps [of "now s + window" s])
qed

text \<open>
  C5. A datagram of fewer than 22 bytes: \<open>datagramReceived\<close> returns without raising, and
  the engine it leaves differs from the one before only in its log, so the table of
  outstanding calls is the same and nothing was sent. The next datagram, whatever it is, is
  then handled as it would have been without the short one: the same outcome and, up to the
  log, the same engine.
\<close>

theorem undersized_datagram_ignored:
  assumes "length datagram < 22"
  shows "datagramReceived c s datagram address =
           (Inr (), logline (DatagramTooSmall address) (lognoisy (ReceivedDatagram address) s)) \<and>
         unlogged (snd (datagramReceived c s datagram address)) = unlogged s \<and>
         outstanding (snd (datagramReceived c s datagram address)) = outstanding s \<and>
         sent (snd (datagramReceived c s datagram address)) = sent s \<and>
         fst (datagramReceived c (snd (datagramReceived c s datagram address)) datagram' address') =
           fst (datagramReceived c s datagram' address') \<and>
         unlogged (snd (datagramReceived c (snd (datagramReceived c s datagram address)) datagram' address')) =
           unlogged (snd (datagramReceived c s datagram' address'))"
proof -
  have r: "datagramReceived c s datagram address =
           (Inr (), logline (DatagramTooSmall address) (lognoisy (ReceivedDatagram address) s))"
    using assms by (simp add: datagramReceived_def Let_def)
  have u: "unlogged (snd (datagramReceived c s datagram address)) = unlogged s"
    by (simp add: r)
  have f: "outstanding (snd (datagramReceived c s datagram address)) = outstanding s \<and>
           sent (snd (datagramReceived c s datagram address)) = sent s"
    by (simp add: r logline_def lognoisy_def)
  from r u f datagramReceived_unlogged [OF u, of c datagram' address'] show ?thesis
    by simp
qed

theorem undersized_datagram_ignored_witness:
  "datagramReceived msgpack responder (replicate 10 0x02) alice =
     (Inr (), responder\<lparr>logs := [DatagramTooSmall alice]\<rparr>) \<and>
   datagramReceived msgpack (snd (datagramReceived msgpack responder (replicate 10 0x02) alice))
       (REQUEST_BYTE @ mid @ echo_payload) alice =
     (Inr (), responder\<lparr>logs := [DatagramTooSmall alice],
                        sent := [(RESPONSE_BYTE @ mid @ x_payload, alice)]\<rparr>) \<and>
   datagramReceived msgpack responder (REQUEST_BYTE @ mid @ echo_payload) alice =
     (Inr (), responder\<lparr>sent := [(RESPONSE_BYTE @ mid @ x_payload, alice)]\<rparr>)"
proof -
  have short: "length (replicate 10 (0x02 :: byte)) < 22" by simp
  have run: "datagramReceived msgpack responder (REQUEST_BYTE @ mid @ echo_payload) alice =
     (Inr (), responder\<lparr>sent := [(RESPONSE_BYTE @ mid @ x_payload, alice)]\<rparr>)"
    by (simp add: datagramReceived_def Let_def lognoisy_def REQUEST_BYTE_def mid_def msgpack_def
        unpack_echo pack_x acceptRequest_def runCallbacks_def echo_def sendResponse_def
        send_all_writable writable_def responder_def init_def)
  have run': "datagramReceived msgpack (responder\<lparr>logs := [DatagramTooSmall alice]\<rparr>) (REQUEST_BYTE @ mid @ echo_payload) alice =
     (Inr (), responder\<lparr>logs := [DatagramTooSmall alice],
                        sent := [(RESPONSE_BYTE @ mid @ x_payload, alice)]\<rparr>)"
    by (simp add: datagramReceived_def Let_def lognoisy_def REQUEST_BYTE_def mid_def msgpack_def
        unpack_echo pack_x acceptRequest_def runCallbacks_def echo_def sendResponse_def
        send_all_writable writable_def responder_def init_def)
  from undersized_datagram_ignored [OF short, of msgpack responder alice]
  have "datagramReceived msgpack responder (replicate 10 0x02) alice =
     (Inr (), responder\<lparr>logs := [DatagramTooSmall alice]\<rparr>)"
    by (simp add: logline_def lognoisy_def responder_def init_def)
  with run run' show ?thesis by simp
qed

section \<open>What a send changes\<close>

lemma send_loop_sent:
  "sent (snd (send_loop future s data address)) = sent s \<or>
   sent (snd (send_loop future s data address)) = sent s @ [(data, address)]"
proof (induction future s data address rule: send_loop.induct)
  case (1 future s data address)
  then show ?case
    by (subst (1 2) send_loop.simps) (auto split: list.splits wres.splits)
qed

lemma send_loop_error:
  "fst (send_loop future s data address) = Inl err \<Longrightarrow> \<exists>e. err = SocketError e"
proof (induction future s data address rule: send_loop.induct)
  case (1 future s data address)
  from "1.prems" have "fst (if now s < future then
        (case wscript s of
           [] \<Rightarrow> (Inr (), s\<lparr>sent := sent s @ [(data, address)]\<rparr>)
         | WriteOk # rest \<Rightarrow> (Inr (), s\<lparr>sent := sent s @ [(data, address)], wscript := rest\<rparr>)
         | WriteErr e # rest \<Rightarrow>
             (if e = 11 \<or> e = 10055
              then send_loop future (s\<lparr>wscript := rest, now := now s + 1000\<rparr>) data address
              else (Inl (SocketError e), s\<lparr>wscript := rest\<rparr>)))
      else (Inr (), s)) = Inl err"
    by (subst (asm) send_loop.simps) simp
  with "1.IH" show ?case
    by (auto split: if_splits list.splits wres.splits)
qed

lemma send_all_sent:
  "sent (snd (send_all s data address window)) = sent s \<or>
   sent (snd (send_all s data address window)) = sent s @ [(data, address)]"
  unfolding send_all_def by (rule send_loop_sent)

lemma send_all_error:
  "fst (send_all s data address window) = Inl err \<Longrightarrow> \<exists>e. err = SocketError e"
  unfolding send_all_def by (rule send_loop_error)

lemma sendResponse_sent:
  "sent (snd (sendResponse c s v msgID address)) = sent s \<or>
   (\<exists>p. packb c v = Inr p \<and>
        sent (snd (sendResponse c s v msgID address)) = sent s @ [(RESPONSE_BYTE @ msgID @ p, address)])"
proof (cases "packb c v")
  case (Inl e)
  then show ?thesis by (simp add: sendResponse_def Let_def lognoisy_def logline_def)
next
  case (Inr p)
  have "sent (lognoisy (SendingResponse msgID address) s) = sent s"
    by (simp add: lognoisy_def logline_def)
  with Inr send_all_sent [of "lognoisy (SendingResponse msgID address) s" "RESPONSE_BYTE @ msgID @ p" address 5000000]
  show ?thesis by (simp add: sendResponse_def Let_def)
qed

lemma runCallbacks_sent:
  "sent (runCallbacks c s r msgID address) = sent s \<or>
   (\<exists>v p. packb c v = Inr p \<and>
        sent (runCallbacks c s r msgID address) = sent s @ [(RESPONSE_BYTE @ msgID @ p, address)])"
proof (cases r)
  case (Returned v)
  obtain r1 s1 where a: "sendResponse c s v msgID address = (r1, s1)" by fastforce
  have "sent (runCallbacks c s r msgID address) = sent s1"
    using Returned a by (simp add: runCallbacks_def onError_def logline_def split: sum.splits)
  with sendResponse_sent [of c s v msgID address] a show ?thesis by auto
next
  case (Raised x)
  then show ?thesis by (simp add: runCallbacks_def onError_def logline_def)
next
  case Later
  then show ?thesis by (simp add: runCallbacks_def)
qed

lemma acceptRequest_sent:
  "sent (snd (acceptRequest c s msgID data address)) = sent s \<or>
   (\<exists>v p. packb c v = Inr p \<and>
        sent (snd (acceptRequest c s msgID data address)) = sent s @ [(RESPONSE_BYTE @ msgID @ p, address)])"
  using runCallbacks_sent [of c s _ msgID address]
  by (auto simp: acceptRequest_def logline_def split: option.splits attr.splits sum.splits)

lemma acceptResponse_sent: "sent (snd (acceptResponse s msgID data address)) = sent s"
  by (auto simp: acceptResponse_def cancel_def callback_def lognoisy_def logline_def
      split: option.splits)

lemma datagramReceived_sent:
  "sent (snd (datagramReceived c s datagram address)) = sent s \<or>
   (\<exists>v p. packb c v = Inr p \<and> 22 \<le> length datagram \<and>
        sent (snd (datagramReceived c s datagram address)) =
          sent s @ [(RESPONSE_BYTE @ take 20 (drop 1 datagram) @ p, address)])"
proof -
  let ?s1 = "lognoisy (ReceivedDatagram address) s"
  have s1: "sent ?s1 = sent s" by (simp add: lognoisy_def logline_def)
  show ?thesis
    using acceptRequest_sent [of c ?s1 "take 20 (drop 1 datagram)" _ address]
      acceptResponse_sent [of ?s1 "take 20 (drop 1 datagram)" _ address] s1
    by (auto simp: datagramReceived_def Let_def logline_def split: sum.splits)
qed

lemma func_sent:
  "sent (snd (func c name s address args msgID)) = sent s \<or>
   (\<exists>data. packb c (PList [PStr name, PList args]) = Inr data \<and>
        sent (snd (func c name s address args msgID)) = sent s @ [(REQUEST_BYTE @ msgID @ data, address)])"
proof (cases "packb c (PList [PStr name, PList args])")
  case (Inl e)
  then show ?thesis by (simp add: func_def)
next
  case (Inr data)
  let ?s1 = "lognoisy (CallingRemote name address msgID) s"
  have s1: "sent ?s1 = sent s" by (simp add: lognoisy_def logline_def)
  obtain r2 s2 where a: "send_all ?s1 (REQUEST_BYTE @ msgID @ data) address 5000000 = (r2, s2)"
    by fastforce
  have "sent (snd (func c name s address args msgID)) = sent s \<or>
        sent (snd (func c name s address args msgID)) = sent s2"
    using Inr a by (auto simp: func_def split: sum.splits)
  with send_all_sent [of ?s1 "REQUEST_BYTE @ msgID @ data" address 5000000] a s1 Inr
  show ?thesis by auto
qed

section \<open>Frames the engine emits\<close>

lemma mp_pack_nonempty: "mp_pack v = Inr bs \<Longrightarrow> bs \<noteq> []"
  by (cases v) (auto simp: mp_pack.simps split: if_splits sum.splits)

lemma frame_ok:
  "length msgID = 20 \<Longrightarrow> p \<noteq> [] \<Longrightarrow> tag = REQUEST_BYTE \<or> tag = RESPONSE_BYTE \<Longrightarrow>
   frame_of tag msgID (tag @ msgID @ p, address)"
  by (cases p) (auto simp: frame_of_def wellframed_def REQUEST_BYTE_def RESPONSE_BYTE_def)

text \<open>
  C10. Given a codec that never encodes to zero bytes (MessagePack does not): every datagram
  that an outbound call hands to the transport is a request frame with the call's 20-byte
  message id, and every datagram that the receive path hands to the transport, at once or
  when the handler's Deferred fires later, is a response frame with the 20 bytes that the
  request carried at offset 1. Each has at least 22 bytes and a known tag, which is what
  \<open>datagramReceived\<close> checks.
\<close>

theorem emitted_frames_wellframed:
  assumes "\<forall>v bs. packb c v = Inr bs \<longrightarrow> bs \<noteq> []"
  shows "(length msgID = 20 \<longrightarrow>
            sent (snd (func c name s address args msgID)) =
              sent s @ emitted s (snd (func c name s address args msgID)) \<and>
            list_all (frame_of REQUEST_BYTE msgID) (emitted s (snd (func c name s address args msgID)))) \<and>
         sent (snd (datagramReceived c s datagram address)) =
           sent s @ emitted s (snd (datagramReceived c s datagram address)) \<and>
         list_all (frame_of RESPONSE_BYTE (take 20 (drop 1 datagram)))
           (emitted s (snd (datagramReceived c s datagram address))) \<and>
         (length msgID = 20 \<longrightarrow>
            sent (runCallbacks c s r msgID address) = sent s @ emitted s (runCallbacks c s r msgID address) \<and>
            list_all (frame_of RESPONSE_BYTE msgID) (emitted s (runCallbacks c s r msgID address)))"
proof (intro conjI impI)
  assume len: "length msgID = 20"
  from func_sent [of c name s address args msgID] assms len
  show "sent (snd (func c name s address args msgID)) =
          sent s @ emitted s (snd (func c name s address args msgID))"
    by (auto simp: emitted_def)
  from func_sent [of c name s address args msgID] assms len
  show "list_all (frame_of REQUEST_BYTE msgID) (emitted s (snd (func c name s address args msgID)))"
    by (auto simp: emitted_def frame_ok)
next
  from datagramReceived_sent [of c s datagram address]
  show "sent (snd (datagramReceived c s datagram address)) =
          sent s @ emitted s (snd (datagramReceived c s datagram address))"
    by (auto simp: emitted_def)
  from datagramReceived_sent [of c s datagram address] assms
  show "list_all (frame_of RESPONSE_BYTE (take 20 (drop 1 datagram)))
          (emitted s (snd (datagramReceived c s datagram address)))"
    by (auto simp: emitted_def frame_ok)
next
  assume len: "length msgID = 20"
  from runCallbacks_sent [of c s r msgID address]
  show "sent (runCallbacks c s r msgID address) = sent s @ emitted s (runCallbacks c s r msgID address)"
    by (auto simp: emitted_def)
  from runCallbacks_sent [of c s r msgID address] assms len
  show "list_all (frame_of RESPONSE_BYTE msgID) (emitted s (runCallbacks c s r msgID address))"
    by (auto simp: emitted_def frame_ok)
qed

lemma sent_init [simp]: "sent caller = []" "sent responder = []"
  by (simp_all add: caller_def responder_def init_def)

lemma caller_echo:
  "func msgpack ''echo'' caller bob [PStr ''x''] mid =
     (Inr 0, caller\<lparr>ndeferred := 1, ntimers := 1, scheduled := [0 \<mapsto> (5, mid)],
                     outstanding := [mid \<mapsto> (0, 0)],
                     sent := [(REQUEST_BYTE @ mid @ echo_payload, bob)]\<rparr>)"
  by (simp add: func_def msgpack_def pack_echo lognoisy_def send_all_writable writable_def
      caller_def init_def)

lemma responder_echo:
  "datagramReceived msgpack responder (REQUEST_BYTE @ mid @ echo_payload) alice =
     (Inr (), responder\<lparr>sent := [(RESPONSE_BYTE @ mid @ x_payload, alice)]\<rparr>)"
  by (simp add: datagramReceived_def Let_def lognoisy_def REQUEST_BYTE_def mid_def msgpack_def
      unpack_echo pack_x acceptRequest_def runCallbacks_def echo_def sendResponse_def
      send_all_writable writable_def responder_def init_def)

theorem emitted_frames_wellframed_witness:
  "emitted caller (snd (func msgpack ''echo'' caller bob [PStr ''x''] mid)) =
     [(REQUEST_BYTE @ mid @ echo_payload, bob)] \<and>
   frame_of REQUEST_BYTE mid (REQUEST_BYTE @ mid @ echo_payload, bob) \<and>
   emitted responder (snd (datagramReceived msgpack responder (REQUEST_BYTE @ mid @ echo_payload) alice)) =
     [(RESPONSE_BYTE @ mid @ x_payload, alice)] \<and>
   frame_of RESPONSE_BYTE mid (RESPONSE_BYTE @ mid @ x_payload, alice)"
proof -
  have ne: "\<forall>v bs. packb msgpack v = Inr bs \<longrightarrow> bs \<noteq> []"
    by (auto simp: msgpack_def dest: mp_pack_nonempty)
  have len: "length mid = 20" by (simp add: mid_def)
  have id: "take 20 (drop 1 (REQUEST_BYTE @ mid @ echo_payload)) = mid"
    by (simp add: REQUEST_BYTE_def mid_def)
  have e1: "emitted caller (snd (func msgpack ''echo'' caller bob [PStr ''x''] mid)) =
     [(REQUEST_BYTE @ mid @ echo_payload, bob)]"
    by (simp add: caller_echo emitted_def)
  have e2: "emitted responder (snd (datagramReceived msgpack responder (REQUEST_BYTE @ mid @ echo_payload) alice)) =
     [(RESPONSE_BYTE @ mid @ x_payload, alice)]"
    by (simp add: responder_echo emitted_def)
  from emitted_frames_wellframed [OF ne, where msgID = mid and name = "''echo''" and s = caller
      and address = bob and args = "[PStr ''x'']"] len e1
  have f1: "frame_of REQUEST_BYTE mid (REQUEST_BYTE @ mid @ echo_payload, bob)" by simp
  from emitted_frames_wellframed [OF ne, where s = responder and address = alice
      and datagram = "REQUEST_BYTE @ mid @ echo_payload"] e2 id
  have f2: "frame_of RESPONSE_BYTE mid (RESPONSE_BYTE @ mid @ x_payload, alice)" by simp
  from e1 f1 e2 f2 show ?thesis by simp
qed

section \<open>The size guard of an outbound call\<close>

lemma pack_long: "mp_pack (PList [PStr ''echo'', PList [long_arg]]) = Inr long_payload"
  by (simp add: mp_pack.simps mp_pack_list.simps long_arg_def long_payload_def ascii_def
      list_all_iff)

text \<open>
  C4. When the encoded \<open>[name, args]\<close> has more than 8192 bytes, the call raises
  MalformedMessage and the engine is as before: no datagram was handed to the transport, no
  Deferred or delayed call was created and the table is untouched. When it has at most 8192
  bytes, the call does not raise MalformedMessage.
\<close>

theorem func_size_guard:
  assumes "packb c (PList [PStr name, PList args]) = Inr data"
  shows "(8192 < length data \<longrightarrow>
            func c name s address args msgID = (Inl (MalformedMessage TotalLengthExceeds8K), s)) \<and>
         (length data \<le> 8192 \<longrightarrow>
            (\<forall>m. fst (func c name s address args msgID) \<noteq> Inl (MalformedMessage m)))"
proof (intro conjI impI allI)
  assume "8192 < length data"
  with assms show "func c name s address args msgID = (Inl (MalformedMessage TotalLengthExceeds8K), s)"
    by (simp add: func_def)
next
  fix m
  assume small: "length data \<le> 8192"
  let ?s1 = "lognoisy (CallingRemote name address msgID) s"
  obtain r2 s2 where a: "send_all ?s1 (REQUEST_BYTE @ msgID @ data) address 5000000 = (r2, s2)"
    by fastforce
  show "fst (func c name s address args msgID) \<noteq> Inl (MalformedMessage m)"
  proof (cases r2)
    case (Inl e)
    with a send_all_error [of ?s1 "REQUEST_BYTE @ msgID @ data" address 5000000 e]
    obtain n where "e = SocketError n" by auto
    with Inl a assms small show ?thesis by (simp add: func_def)
  next
    case (Inr u)
    with a assms small show ?thesis by (simp add: func_def)
  qed
qed

theorem func_size_guard_witness:
  "func msgpack ''echo'' caller bob [long_arg] mid = (Inl (MalformedMessage TotalLengthExceeds8K), caller) \<and>
   length long_payload = 9010 \<and>
   fst (func msgpack ''echo'' caller bob [PStr ''x''] mid) = Inr 0"
proof -
  have p1: "packb msgpack (PList [PStr ''echo'', PList [long_arg]]) = Inr long_payload"
    by (simp add: msgpack_def pack_long)
  have p2: "packb msgpack (PList [PStr ''echo'', PList [PStr ''x'']]) = Inr echo_payload"
    by (simp add: msgpack_def pack_echo)
  have l: "length long_payload = 9010" by (simp add: long_payload_def)
  from func_size_guard [OF p1, of caller bob mid] l
  have big: "func msgpack ''echo'' caller bob [long_arg] mid = (Inl (MalformedMessage TotalLengthExceeds8K), caller)"
    by simp
  from func_size_guard [OF p2, of caller bob mid]
  have "\<forall>m. fst (func msgpack ''echo'' caller bob [PStr ''x''] mid) \<noteq> Inl (MalformedMessage m)"
    by simp
  with big l show ?thesis by (simp add: caller_echo)
qed

section \<open>Requests for a method that is not there\<close>

text \<open>
  C8. A request \<open>[funcname, args]\<close> whose \<open>rpc_funcname\<close> is missing or not callable: the
  engine logs and returns; it is otherwise as before, so nothing was handed to the
  transport. The same holds for the datagram that carries such a request.
\<close>

theorem unknown_method_dropped:
  assumes "rpc s funcname = None \<or> rpc s funcname = Some NotCallable"
  shows "acceptRequest c s msgID (PList [funcname, args]) address =
           (Inr (), logline (NoCallableMethod funcname) s) \<and>
         (22 \<le> length datagram \<and> take 1 datagram = REQUEST_BYTE \<and>
          unpackb c (drop 21 datagram) = Inr (PList [funcname, args]) \<longrightarrow>
            datagramReceived c s datagram address =
              (Inr (), logline (NoCallableMethod funcname) (lognoisy (ReceivedDatagram address) s)) \<and>
            sent (snd (datagramReceived c s datagram address)) = sent s \<and>
            unlogged (snd (datagramReceived c s datagram address)) = unlogged s)"
proof -
  have a: "\<And>s'. rpc s' = rpc s \<Longrightarrow>
      acceptRequest c s' msgID' (PList [funcname, args]) address =
        (Inr (), logline (NoCallableMethod funcname) s')" for msgID'
    using assms by (auto simp: acceptRequest_def)
  have r: "rpc (lognoisy (ReceivedDatagram address) s) = rpc s"
    by (simp add: lognoisy_def logline_def)
  show ?thesis
    using a [of s msgID] a [OF r, of "take 20 (drop 1 datagram)"]
    by (auto simp: datagramReceived_def Let_def logline_def lognoisy_def)
qed

theorem unknown_method_dropped_witness:
  "acceptRequest msgpack caller mid (PList [PStr ''echo'', PList [PStr ''x'']]) alice =
     (Inr (), caller\<lparr>logs := [NoCallableMethod (PStr ''echo'')]\<rparr>) \<and>
   datagramReceived msgpack caller (REQUEST_BYTE @ mid @ echo_payload) alice =
     (Inr (), caller\<lparr>logs := [NoCallableMethod (PStr ''echo'')]\<rparr>) \<and>
   sent (snd (datagramReceived msgpack caller (REQUEST_BYTE @ mid @ echo_payload) alice)) = []"
proof -
  have none: "rpc caller (PStr ''echo'') = None \<or> rpc caller (PStr ''echo'') = Some NotCallable"
    by (simp add: caller_def init_def)
  have dg: "22 \<le> length (REQUEST_BYTE @ mid @ echo_payload) \<and>
      take 1 (REQUEST_BYTE @ mid @ echo_payload) = REQUEST_BYTE \<and>
      unpackb msgpack (drop 21 (REQUEST_BYTE @ mid @ echo_payload)) = Inr (PList [PStr ''echo'', PList [PStr ''x'']])"
    by (simp add: REQUEST_BYTE_def mid_def msgpack_def unpack_echo)
  have l: "logline (NoCallableMethod (PStr ''echo'')) caller = caller\<lparr>logs := [NoCallableMethod (PStr ''echo'')]\<rparr>"
    "lognoisy (ReceivedDatagram alice) caller = caller"
    by (simp_all add: logline_def lognoisy_def caller_def init_def)
  note T = unknown_method_dropped [OF none, of msgpack mid "PList [PStr ''x'']" alice
      "REQUEST_BYTE @ mid @ echo_payload"]
  from T have acc: "acceptRequest msgpack caller mid (PList [PStr ''echo'', PList [PStr ''x'']]) alice =
     (Inr (), logline (NoCallableMethod (PStr ''echo'')) caller)"
    by (rule conjunct1)
  from T dg have rcv: "datagramReceived msgpack caller (REQUEST_BYTE @ mid @ echo_payload) alice =
       (Inr (), logline (NoCallableMethod (PStr ''echo'')) (lognoisy (ReceivedDatagram alice) caller)) \<and>
     sent (snd (datagramReceived msgpack caller (REQUEST_BYTE @ mid @ echo_payload) alice)) = sent caller"
    by blast
  from acc rcv show ?thesis by (simp only: l sent_init) simp
qed

section \<open>Timeouts and responses\<close>

lemma caller_waiting: "func msgpack ''echo'' caller bob [PStr ''x''] mid = (Inr 0, waiting)"
  by (simp add: caller_echo waiting_def)

lemma pending_waiting: "pending waiting mid 0 0"
  by (simp add: pending_def waiting_def caller_def init_def)

text \<open>
  What the two ways of ending a pending call do to the engine. \<open>_timeout\<close> itself looks the
  id up without a guard: for an id that is not in the table it raises KeyError. It is the
  cancelled delayed call that keeps the reactor from running it after a response.
\<close>

lemma timeout_pending:
  assumes "outstanding s msgID = Some (d, t)" and "fired s d = None"
  shows "timeout s msgID =
         (Inr (), s\<lparr>logs := logs s @ [NoReply msgID (waitTimeout s)],
                    fired := (fired s)(d \<mapsto> (False, PNone)),
                    outstanding := (outstanding s)(msgID := None)\<rparr>)"
  using assms by (simp add: timeout_def Let_def logline_def callback_def)

lemma timeout_absent:
  "outstanding s msgID = None \<Longrightarrow> fst (timeout s msgID) = Inl (KeyError msgID)"
  by (simp add: timeout_def Let_def logline_def)

lemma fire_pending:
  assumes "pending s msgID d t"
  shows "fire s t =
         (Inr (), s\<lparr>called := insert t (called s),
                    logs := logs s @ [NoReply msgID (waitTimeout s)],
                    fired := (fired s)(d \<mapsto> (False, PNone)),
                    outstanding := (outstanding s)(msgID := None)\<rparr>)"
proof -
  from assms obtain delay where sch: "scheduled s t = Some (delay, msgID)"
    by (auto simp: pending_def)
  let ?s = "s\<lparr>called := insert t (called s)\<rparr>"
  from assms have "outstanding ?s msgID = Some (d, t)" and "fired ?s d = None"
    by (simp_all add: pending_def)
  from timeout_pending [OF this] sch assms show ?thesis
    by (simp add: fire_def pending_def)
qed

lemma acceptResponse_pending:
  assumes "pending s msgID d t"
  shows "acceptResponse s msgID data address =
         (Inr (), (lognoisy (ReceivedResponse msgID address) s)
                    \<lparr>cancelled := insert t (cancelled s),
                     fired := (fired s)(d \<mapsto> (True, data)),
                     outstanding := (outstanding s)(msgID := None)\<rparr>)"
  using assms
  by (simp add: acceptResponse_def pending_def cancel_def callback_def lognoisy_def logline_def)

lemma acceptResponse_unmatched:
  "outstanding s msgID = None \<Longrightarrow>
   acceptResponse s msgID data address = (Inr (), logline (UnknownMsgID msgID address) s)"
  by (simp add: acceptResponse_def)

lemma fire_cancelled: "t \<in> cancelled s \<Longrightarrow> fire s t = (Inr (), s)"
  by (simp add: fire_def split: option.splits)

lemma fire_called: "t \<in> called s \<Longrightarrow> fire s t = (Inr (), s)"
  by (simp add: fire_def split: option.splits)

text \<open>
  C3, amended. For a pending call whose delayed call the reactor runs: \<open>_timeout\<close> runs, the
  Deferred is called back with \<open>(False, None)\<close>, and the entry leaves the table. A response
  with that id that arrives next, as a call of \<open>_acceptResponse\<close> or as a datagram whose
  payload decodes, is logged as unknown and changes nothing else.
\<close>

theorem timeout_resolves_false:
  assumes "pending s msgID d t"
  shows "fire s t = timeout (s\<lparr>called := insert t (called s)\<rparr>) msgID \<and>
         fst (fire s t) = Inr () \<and>
         fired (snd (fire s t)) = (fired s)(d \<mapsto> (False, PNone)) \<and>
         outstanding (snd (fire s t)) = (outstanding s)(msgID := None) \<and>
         acceptResponse (snd (fire s t)) msgID data address =
           (Inr (), logline (UnknownMsgID msgID address) (snd (fire s t))) \<and>
         (22 \<le> length datagram \<and> take 1 datagram = RESPONSE_BYTE \<and>
          take 20 (drop 1 datagram) = msgID \<and> unpackb c (drop 21 datagram) = Inr data \<longrightarrow>
            datagramReceived c (snd (fire s t)) datagram address =
              (Inr (), logline (UnknownMsgID msgID address)
                         (lognoisy (ReceivedDatagram address) (snd (fire s t)))) \<and>
            unlogged (snd (datagramReceived c (snd (fire s t)) datagram address)) =
              unlogged (snd (fire s t)))"
proof -
  from assms obtain delay where sch: "scheduled s t = Some (delay, msgID)"
    by (auto simp: pending_def)
  from sch assms have cb: "fire s t = timeout (s\<lparr>called := insert t (called s)\<rparr>) msgID"
    by (simp add: fire_def pending_def)
  note f = fire_pending [OF assms]
  have gone: "outstanding (snd (fire s t)) msgID = None" by (simp add: f)
  have gone': "outstanding (lognoisy (ReceivedDatagram address) (snd (fire s t))) msgID = None"
    by (simp add: f lognoisy_def logline_def)
  have tags: "RESPONSE_BYTE \<noteq> REQUEST_BYTE" by (simp add: RESPONSE_BYTE_def REQUEST_BYTE_def)
  have dg: "22 \<le> length datagram \<and> take 1 datagram = RESPONSE_BYTE \<and>
          take 20 (drop 1 datagram) = msgID \<and> unpackb c (drop 21 datagram) = Inr data \<longrightarrow>
            datagramReceived c (snd (fire s t)) datagram address =
              (Inr (), logline (UnknownMsgID msgID address)
                         (lognoisy (ReceivedDatagram address) (snd (fire s t))))"
    using acceptResponse_unmatched [OF gone', of data address] tags
    by (auto simp: datagramReceived_def Let_def)
  from dg have dg': "22 \<le> length datagram \<and> take 1 datagram = RESPONSE_BYTE \<and>
          take 20 (drop 1 datagram) = msgID \<and> unpackb c (drop 21 datagram) = Inr data \<longrightarrow>
            unlogged (snd (datagramReceived c (snd (fire s t)) datagram address)) =
              unlogged (snd (fire s t))"
    by auto
  have f0: "fst (fire s t) = Inr () \<and>
         fired (snd (fire s t)) = (fired s)(d \<mapsto> (False, PNone)) \<and>
         outstanding (snd (fire s t)) = (outstanding s)(msgID := None)"
    by (simp add: f)
  from cb f0 acceptResponse_unmatched [OF gone, of data address] dg dg' show ?thesis
    by blast
qed

theorem timeout_resolves_false_witness:
  "fst (fire waiting 0) = Inr () \<and>
   fired (snd (fire waiting 0)) 0 = Some (False, PNone) \<and>
   outstanding (snd (fire waiting 0)) mid = None \<and>
   fst (datagramReceived msgpack (snd (fire waiting 0)) (RESPONSE_BYTE @ mid @ x_payload) bob) = Inr () \<and>
   unlogged (snd (datagramReceived msgpack (snd (fire waiting 0)) (RESPONSE_BYTE @ mid @ x_payload) bob)) =
     unlogged (snd (fire waiting 0))"
proof -
  have dg: "22 \<le> length (RESPONSE_BYTE @ mid @ x_payload) \<and>
      take 1 (RESPONSE_BYTE @ mid @ x_payload) = RESPONSE_BYTE \<and>
      take 20 (drop 1 (RESPONSE_BYTE @ mid @ x_payload)) = mid \<and>
      unpackb msgpack (drop 21 (RESPONSE_BYTE @ mid @ x_payload)) = Inr (PList [PStr ''x''])"
    by (simp add: RESPONSE_BYTE_def mid_def msgpack_def unpack_x)
  note T = timeout_resolves_false [OF pending_waiting, of "PList [PStr ''x'']" bob
      "RESPONSE_BYTE @ mid @ x_payload" msgpack]
  from T have a: "fst (fire waiting 0) = Inr ()"
    and b: "fired (snd (fire waiting 0)) = (fired waiting)(0 \<mapsto> (False, PNone))"
    and c: "outstanding (snd (fire waiting 0)) = (outstanding waiting)(mid := None)"
    by blast+
  from T dg have d: "datagramReceived msgpack (snd (fire waiting 0)) (RESPONSE_BYTE @ mid @ x_payload) bob =
      (Inr (), logline (UnknownMsgID mid bob) (lognoisy (ReceivedDatagram bob) (snd (fire waiting 0))))"
    and e: "unlogged (snd (datagramReceived msgpack (snd (fire waiting 0)) (RESPONSE_BYTE @ mid @ x_payload) bob)) =
     unlogged (snd (fire waiting 0))"
    by blast+
  from a b c d e show ?thesis by simp
qed

text \<open>
  C3, the claim as stated. The payload of a datagram is unpacked before its tag and its id
  are looked at. After the timeout of the call \<open>mid\<close>, a response frame with that id whose
  payload is \<open>0xc1\<close>, the code MessagePack reserves, is not dropped as unmatched:
  \<open>datagramReceived\<close> raises the codec's error.
\<close>

theorem stray_response_counterexample:
  "pending waiting mid 0 0 \<and>
   fst (fire waiting 0) = Inr () \<and>
   outstanding (snd (fire waiting 0)) mid = None \<and>
   datagramReceived msgpack (snd (fire waiting 0)) (RESPONSE_BYTE @ mid @ [0xc1]) bob =
     (Inl UnpackException, snd (fire waiting 0))"
proof -
  note f = fire_pending [OF pending_waiting]
  have n: "\<not> noisy waiting" by (simp add: waiting_def caller_def init_def)
  have "datagramReceived msgpack (snd (fire waiting 0)) (RESPONSE_BYTE @ mid @ [0xc1]) bob =
     (Inl UnpackException, snd (fire waiting 0))"
    using n
    by (simp add: f datagramReceived_def Let_def lognoisy_def RESPONSE_BYTE_def mid_def
        msgpack_def mp_unpackb_def)
  with pending_waiting show ?thesis by (simp add: f)
qed

text \<open>
  C2. A pending call ends in one of two ways. If the response is matched first, the
  Deferred gets \<open>(True, data)\<close> and the entry leaves the table in the same step; the delayed
  call is cancelled, so when the reactor reaches its time nothing runs and the engine is
  unchanged, and a second response with the id is logged as unknown. If the delayed call
  runs first, the Deferred gets \<open>(False, None)\<close> and the entry leaves the table in the same
  step; the delayed call does not run again, and a response that arrives afterwards is
  logged as unknown. In both orders no call raises and the Deferred keeps its first result.
\<close>

theorem exactly_one_resolution:
  assumes "pending s msgID d t"
  shows "(fst (acceptResponse s msgID data address) = Inr () \<and>
          fired (snd (acceptResponse s msgID data address)) = (fired s)(d \<mapsto> (True, data)) \<and>
          outstanding (snd (acceptResponse s msgID data address)) = (outstanding s)(msgID := None) \<and>
          fire (snd (acceptResponse s msgID data address)) t =
            (Inr (), snd (acceptResponse s msgID data address)) \<and>
          acceptResponse (snd (acceptResponse s msgID data address)) msgID data' address' =
            (Inr (), logline (UnknownMsgID msgID address') (snd (acceptResponse s msgID data address)))) \<and>
         (fst (fire s t) = Inr () \<and>
          fired (snd (fire s t)) = (fired s)(d \<mapsto> (False, PNone)) \<and>
          outstanding (snd (fire s t)) = (outstanding s)(msgID := None) \<and>
          fire (snd (fire s t)) t = (Inr (), snd (fire s t)) \<and>
          acceptResponse (snd (fire s t)) msgID data' address' =
            (Inr (), logline (UnknownMsgID msgID address') (snd (fire s t))))"
proof -
  note r = acceptResponse_pending [OF assms, of data address]
  note f = fire_pending [OF assms]
  have r1: "fire (snd (acceptResponse s msgID data address)) t =
            (Inr (), snd (acceptResponse s msgID data address))"
    by (rule fire_cancelled) (simp add: r)
  have r2: "acceptResponse (snd (acceptResponse s msgID data address)) msgID data' address' =
            (Inr (), logline (UnknownMsgID msgID address') (snd (acceptResponse s msgID data address)))"
    by (rule acceptResponse_unmatched) (simp add: r)
  have f1: "fire (snd (fire s t)) t = (Inr (), snd (fire s t))"
    by (rule fire_called) (simp add: f)
  have f2: "acceptResponse (snd (fire s t)) msgID data' address' =
            (Inr (), logline (UnknownMsgID msgID address') (snd (fire s t)))"
    by (rule acceptResponse_unmatched) (simp add: f)
  have r0: "fst (acceptResponse s msgID data address) = Inr () \<and>
          fired (snd (acceptResponse s msgID data address)) = (fired s)(d \<mapsto> (True, data)) \<and>
          outstanding (snd (acceptResponse s msgID data address)) = (outstanding s)(msgID := None)"
    by (simp add: r lognoisy_def logline_def)
  have f0: "fst (fire s t) = Inr () \<and>
          fired (snd (fire s t)) = (fired s)(d \<mapsto> (False, PNone)) \<and>
          outstanding (snd (fire s t)) = (outstanding s)(msgID := None)"
    by (simp add: f)
  from r0 r1 r2 f0 f1 f2 show ?thesis by blast
qed

theorem exactly_one_resolution_witness:
  "fired (snd (acceptResponse waiting mid (PList [PStr ''x'']) bob)) 0 = Some (True, PList [PStr ''x'']) \<and>
   fire (snd (acceptResponse waiting mid (PList [PStr ''x'']) bob)) 0 =
     (Inr (), snd (acceptResponse waiting mid (PList [PStr ''x'']) bob)) \<and>
   fired (snd (fire waiting 0)) 0 = Some (False, PNone) \<and>
   fired (snd (acceptResponse (snd (fire waiting 0)) mid (PList [PStr ''x'']) bob)) 0 = Some (False, PNone) \<and>
   outstanding (snd (acceptResponse waiting mid (PList [PStr ''x'']) bob)) mid = None \<and>
   outstanding (snd (fire waiting 0)) mid = None"
proof -
  note T = exactly_one_resolution [OF pending_waiting, of "PList [PStr ''x'']" bob "PList [PStr ''x'']" bob]
  from T have a: "fired (snd (acceptResponse waiting mid (PList [PStr ''x'']) bob)) =
      (fired waiting)(0 \<mapsto> (True, PList [PStr ''x'']))"
    and b: "fire (snd (acceptResponse waiting mid (PList [PStr ''x'']) bob)) 0 =
     (Inr (), snd (acceptResponse waiting mid (PList [PStr ''x'']) bob))"
    and c: "fired (snd (fire waiting 0)) = (fired waiting)(0 \<mapsto> (False, PNone))"
    and d: "acceptResponse (snd (fire waiting 0)) mid (PList [PStr ''x'']) bob =
      (Inr (), logline (UnknownMsgID mid bob) (snd (fire waiting 0)))"
    and e: "outstanding (snd (acceptResponse waiting mid (PList [PStr ''x'']) bob)) =
      (outstanding waiting)(mid := None)"
    and f: "outstanding (snd (fire waiting 0)) = (outstanding waiting)(mid := None)"
    by blast+
  from a b c d e f show ?thesis by (simp add: logline_def)
qed

section \<open>A call and its answer\<close>

text \<open>
  \<open>protocol.echo\<close> is not an attribute of the engine and its name starts with neither \<open>_\<close>
  nor \<open>rpc_\<close>, so \<open>__getattr__\<close> answers with the closure \<open>func\<close> for the name \<open>echo\<close>.
\<close>

lemma getattr_echo: "getattr ''echo'' = Inr (\<lambda>c. func c ''echo'')"
  by (simp add: getattr_def startswith_def)

lemma writable_lognoisy [simp]: "writable (lognoisy x s) = writable s"
  by (simp add: writable_def lognoisy_def logline_def)

lemma pending_lognoisy [simp]: "pending (lognoisy x s) msgID d t = pending s msgID d t"
  by (simp add: pending_def lognoisy_def logline_def)

lemma func_writable:
  assumes "packb c (PList [PStr name, PList args]) = Inr data" and "length data \<le> 8192"
    and "writable s"
  shows "func c name s address args msgID =
         (Inr (ndeferred s),
          (lognoisy (CallingRemote name address msgID) s)
            \<lparr>sent := sent s @ [(REQUEST_BYTE @ msgID @ data, address)],
             wscript := tl (wscript s),
             ndeferred := Suc (ndeferred s),
             ntimers := Suc (ntimers s),
             scheduled := (scheduled s)(ntimers s \<mapsto> (waitTimeout s, msgID)),
             outstanding := (outstanding s)(msgID \<mapsto> (ndeferred s, ntimers s))\<rparr>)"
  using assms
  by (simp add: func_def send_all_writable) (simp add: lognoisy_def logline_def)

lemma func_pending:
  assumes "packb c (PList [PStr name, PList args]) = Inr data" and "length data \<le> 8192"
    and "writable s" and "fresh_handles s"
  shows "pending (snd (func c name s address args msgID)) msgID (ndeferred s) (ntimers s)"
  using assms(4)
  by (simp add: func_writable [OF assms(1-3)] pending_def fresh_handles_def lognoisy_def logline_def)

lemma response_datagram:
  assumes "pending s msgID d t" and "length msgID = 20" and "p \<noteq> []"
    and "unpackb c p = Inr data"
  shows "fst (datagramReceived c s (RESPONSE_BYTE @ msgID @ p) address) = Inr () \<and>
         fired (snd (datagramReceived c s (RESPONSE_BYTE @ msgID @ p) address)) =
           (fired s)(d \<mapsto> (True, data)) \<and>
         outstanding (snd (datagramReceived c s (RESPONSE_BYTE @ msgID @ p) address)) =
           (outstanding s)(msgID := None)"
proof -
  let ?s1 = "lognoisy (ReceivedDatagram address) s"
  from assms(1) have p1: "pending ?s1 msgID d t" by simp
  have len: "\<not> length (RESPONSE_BYTE @ msgID @ p) < 22"
    using assms(2,3) by (cases p) (simp_all add: RESPONSE_BYTE_def)
  have sl: "take 20 (drop 1 (RESPONSE_BYTE @ msgID @ p)) = msgID"
    "drop 21 (RESPONSE_BYTE @ msgID @ p) = p"
    "take 1 (RESPONSE_BYTE @ msgID @ p) = RESPONSE_BYTE"
    using assms(2) by (simp_all add: RESPONSE_BYTE_def)
  have tags: "RESPONSE_BYTE \<noteq> REQUEST_BYTE" by (simp add: RESPONSE_BYTE_def REQUEST_BYTE_def)
  have "datagramReceived c s (RESPONSE_BYTE @ msgID @ p) address = acceptResponse ?s1 msgID data address"
    using len sl tags assms(4) by (simp add: datagramReceived_def Let_def)
  with acceptResponse_pending [OF p1, of data address] show ?thesis
    by (simp add: lognoisy_def logline_def)
qed

lemma request_datagram:
  assumes "rpc s funcname = Some (Callable h)" and "star args = Inr argl"
    and "h address argl = Returned v" and "packb c v = Inr p" and "writable s"
    and "length msgID = 20" and "q \<noteq> []" and "unpackb c q = Inr (PList [funcname, args])"
  shows "fst (datagramReceived c s (REQUEST_BYTE @ msgID @ q) address) = Inr () \<and>
         sent (snd (datagramReceived c s (REQUEST_BYTE @ msgID @ q) address)) =
           sent s @ [(RESPONSE_BYTE @ msgID @ p, address)]"
proof -
  let ?s1 = "lognoisy (ReceivedDatagram address) s"
  have len: "\<not> length (REQUEST_BYTE @ msgID @ q) < 22"
    using assms(6,7) by (cases q) (simp_all add: REQUEST_BYTE_def)
  have sl: "take 20 (drop 1 (REQUEST_BYTE @ msgID @ q)) = msgID"
    "drop 21 (REQUEST_BYTE @ msgID @ q) = q"
    "take 1 (REQUEST_BYTE @ msgID @ q) = REQUEST_BYTE"
    using assms(6) by (simp_all add: REQUEST_BYTE_def)
  have r: "rpc ?s1 funcname = Some (Callable h)"
    using assms(1) by (simp add: lognoisy_def logline_def)
  have w: "writable (lognoisy (SendingResponse msgID address) ?s1)" using assms(5) by simp
  have "datagramReceived c s (REQUEST_BYTE @ msgID @ q) address = acceptRequest c ?s1 msgID (PList [funcname, args]) address"
    using len sl assms(8) by (simp add: datagramReceived_def Let_def)
  also have "\<dots> = (Inr (), runCallbacks c ?s1 (Returned v) msgID address)"
    using r assms(2,3) by (simp add: acceptRequest_def)
  finally show ?thesis
    using assms(4) send_all_writable [OF w, of 5000000 "RESPONSE_BYTE @ msgID @ p" address]
    by (simp add: runCallbacks_def sendResponse_def Let_def) (simp add: lognoisy_def logline_def)
qed

text \<open>
  C1. Caller \<open>A\<close> issues \<open>echo\<close> with the argument list \<open>["x"]\<close> to the peer at address \<open>b\<close>,
  whose engine \<open>B\<close> has the handler \<open>rpc_echo\<close> that returns its argument list; \<open>a\<close> is
  the caller's address. The codec encodes the request and the response to bytes that it
  decodes back, both transports take the write, and the message id has 20 bytes. Then the
  call returns the handle of a new Deferred and sends the request frame; the responder, on
  that frame, sends a response frame with the same 20-byte id; and the caller, on that
  frame, calls the Deferred back with \<open>(True, ["x"])\<close> and drops the entry.
\<close>

theorem echo_round_trip:
  assumes "packb c (PList [PStr ''echo'', PList [PStr ''x'']]) = Inr req"
    and "req \<noteq> []" and "length req \<le> 8192"
    and "unpackb c req = Inr (PList [PStr ''echo'', PList [PStr ''x'']])"
    and "packb c (PList [PStr ''x'']) = Inr resp" and "resp \<noteq> []"
    and "unpackb c resp = Inr (PList [PStr ''x''])"
    and "length msgID = 20"
    and "rpc B (PStr ''echo'') = Some (Callable echo)"
    and "writable A" and "writable B" and "fresh_handles A"
  shows "fst (func c ''echo'' A b [PStr ''x''] msgID) = Inr (ndeferred A) \<and>
         sent (snd (func c ''echo'' A b [PStr ''x''] msgID)) =
           sent A @ [(REQUEST_BYTE @ msgID @ req, b)] \<and>
         fst (datagramReceived c B (REQUEST_BYTE @ msgID @ req) a) = Inr () \<and>
         sent (snd (datagramReceived c B (REQUEST_BYTE @ msgID @ req) a)) =
           sent B @ [(RESPONSE_BYTE @ msgID @ resp, a)] \<and>
         take 20 (drop 1 (RESPONSE_BYTE @ msgID @ resp)) = take 20 (drop 1 (REQUEST_BYTE @ msgID @ req)) \<and>
         fst (datagramReceived c (snd (func c ''echo'' A b [PStr ''x''] msgID))
                (RESPONSE_BYTE @ msgID @ resp) b) = Inr () \<and>
         fired (snd (datagramReceived c (snd (func c ''echo'' A b [PStr ''x''] msgID))
                  (RESPONSE_BYTE @ msgID @ resp) b)) (ndeferred A) =
           Some (True, PList [PStr ''x'']) \<and>
         outstanding (snd (datagramReceived c (snd (func c ''echo'' A b [PStr ''x''] msgID))
                  (RESPONSE_BYTE @ msgID @ resp) b)) msgID = None"
proof -
  let ?A1 = "snd (func c ''echo'' A b [PStr ''x''] msgID)"
  note call = func_writable [OF assms(1) assms(3) assms(10), of b msgID]
  have c1: "fst (func c ''echo'' A b [PStr ''x''] msgID) = Inr (ndeferred A)"
    by (simp add: call)
  have c2: "sent ?A1 = sent A @ [(REQUEST_BYTE @ msgID @ req, b)]"
    by (simp add: call)
  have st: "star (PList [PStr ''x'']) = Inr [PStr ''x'']" by simp
  have h: "echo a [PStr ''x''] = Returned (PList [PStr ''x''])" by (simp add: echo_def)
  note serve = request_datagram [OF assms(9) st h assms(5) assms(11) assms(8) assms(2) assms(4)]
  have ids: "take 20 (drop 1 (RESPONSE_BYTE @ msgID @ resp)) =
             take 20 (drop 1 (REQUEST_BYTE @ msgID @ req))"
    using assms(8) by (simp add: RESPONSE_BYTE_def REQUEST_BYTE_def)
  have pend: "pending ?A1 msgID (ndeferred A) (ntimers A)"
    by (rule func_pending [OF assms(1) assms(3) assms(10) assms(12)])
  note answer = response_datagram [OF pend assms(8) assms(6) assms(7), of b]
  from answer have a1: "fst (datagramReceived c ?A1 (RESPONSE_BYTE @ msgID @ resp) b) = Inr ()"
    and a2: "fired (snd (datagramReceived c ?A1 (RESPONSE_BYTE @ msgID @ resp) b)) (ndeferred A) =
             Some (True, PList [PStr ''x''])"
    and a3: "outstanding (snd (datagramReceived c ?A1 (RESPONSE_BYTE @ msgID @ resp) b)) msgID = None"
    by simp_all
  from c1 c2 serve ids a1 a2 a3 show ?thesis by blast
qed

theorem echo_round_trip_witness:
  "func msgpack ''echo'' caller bob [PStr ''x''] mid = (Inr 0, waiting) \<and>
   sent waiting = [(REQUEST_BYTE @ mid @ echo_payload, bob)] \<and>
   sent (snd (datagramReceived msgpack responder (REQUEST_BYTE @ mid @ echo_payload) alice)) =
     [(RESPONSE_BYTE @ mid @ x_payload, alice)] \<and>
   fst (datagramReceived msgpack waiting (RESPONSE_BYTE @ mid @ x_payload) bob) = Inr () \<and>
   fired (snd (datagramReceived msgpack waiting (RESPONSE_BYTE @ mid @ x_payload) bob)) 0 =
     Some (True, PList [PStr ''x''])"
proof -
  have p1: "packb msgpack (PList [PStr ''echo'', PList [PStr ''x'']]) = Inr echo_payload"
    and u1: "unpackb msgpack echo_payload = Inr (PList [PStr ''echo'', PList [PStr ''x'']])"
    and p2: "packb msgpack (PList [PStr ''x'']) = Inr x_payload"
    and u2: "unpackb msgpack x_payload = Inr (PList [PStr ''x''])"
    by (simp_all add: msgpack_def pack_echo unpack_echo pack_x unpack_x)
  have n1: "echo_payload \<noteq> []" and n2: "x_payload \<noteq> []" and l1: "length echo_payload \<le> 8192"
    by (simp_all add: echo_payload_def x_payload_def)
  have m: "length mid = 20" by (simp add: mid_def)
  have r: "rpc responder (PStr ''echo'') = Some (Callable echo)"
    by (simp add: responder_def init_def)
  have w: "writable caller" "writable responder" "fresh_handles caller"
    by (simp_all add: writable_def fresh_handles_def caller_def responder_def init_def)
  have z: "ndeferred caller = 0" by (simp add: caller_def init_def)
  note T = echo_round_trip [OF p1 n1 l1 u1 p2 n2 u2 m r w, of bob alice]
  from T show ?thesis
    by (simp add: caller_waiting z)
qed

section \<open>Requests of the wrong shape\<close>

lemma request_shape_None:
  "(request_shape data = None) = (\<forall>funcname args. data \<noteq> PList [funcname, args])"
  by (induction data rule: request_shape.induct) simp_all

text \<open>
  C7, the claim as stated. The second element of a two-element request is never
  inspected before the star of \<open>f(address, *args)\<close> iterates it. Here it is a dict: the
  handler is called with its keys, no error is raised, and a response frame is sent.
\<close>

theorem malformed_request_counterexample:
  "acceptRequest msgpack responder mid (PList [PStr ''echo'', PDict [(PStr ''x'', PNone)]]) alice =
     (Inr (), responder\<lparr>sent := [(RESPONSE_BYTE @ mid @ x_payload, alice)]\<rparr>)"
  by (simp add: acceptRequest_def runCallbacks_def echo_def sendResponse_def Let_def lognoisy_def
      msgpack_def pack_x send_all_writable writable_def responder_def init_def)

text \<open>
  C7, amended. A decoded payload that is not a list of exactly two elements:
  \<open>_acceptRequest\<close> raises MalformedMessage and the engine is as before, so no response
  was sent; the datagram that carries such a payload raises the same error out of
  \<open>datagramReceived\<close>. A list of two elements never raises MalformedMessage, whatever its
  second element is.
\<close>

theorem malformed_request_rejected:
  "((\<forall>funcname args. data \<noteq> PList [funcname, args]) \<longrightarrow>
      acceptRequest c s msgID data address = (Inl (MalformedMessage (CouldNotReadPacket data)), s) \<and>
      (22 \<le> length datagram \<and> take 1 datagram = REQUEST_BYTE \<and>
       unpackb c (drop 21 datagram) = Inr data \<longrightarrow>
         datagramReceived c s datagram address =
           (Inl (MalformedMessage (CouldNotReadPacket data)), lognoisy (ReceivedDatagram address) s) \<and>
         sent (snd (datagramReceived c s datagram address)) = sent s)) \<and>
   (\<forall>m. fst (acceptRequest c s msgID (PList [funcname', args']) address) \<noteq> Inl (MalformedMessage m))"
proof (intro conjI impI allI)
  assume "\<forall>funcname args. data \<noteq> PList [funcname, args]"
  then have shape: "request_shape data = None" by (simp add: request_shape_None)
  then show "acceptRequest c s msgID data address = (Inl (MalformedMessage (CouldNotReadPacket data)), s)"
    by (simp add: acceptRequest_def)
  assume dg: "22 \<le> length datagram \<and> take 1 datagram = REQUEST_BYTE \<and>
       unpackb c (drop 21 datagram) = Inr data"
  with shape show r: "datagramReceived c s datagram address =
           (Inl (MalformedMessage (CouldNotReadPacket data)), lognoisy (ReceivedDatagram address) s)"
    by (simp add: datagramReceived_def Let_def acceptRequest_def)
  show "sent (snd (datagramReceived c s datagram address)) = sent s"
    by (simp add: r lognoisy_def logline_def)
next
  fix m
  show "fst (acceptRequest c s msgID (PList [funcname', args']) address) \<noteq> Inl (MalformedMessage m)"
    by (auto simp: acceptRequest_def split: option.splits attr.splits sum.splits
        elim: star.elims)
qed

theorem malformed_request_rejected_witness:
  "acceptRequest msgpack responder mid (PList [PStr ''x'']) alice =
     (Inl (MalformedMessage (CouldNotReadPacket (PList [PStr ''x'']))), responder) \<and>
   datagramReceived msgpack responder (REQUEST_BYTE @ mid @ x_payload) alice =
     (Inl (MalformedMessage (CouldNotReadPacket (PList [PStr ''x'']))), responder) \<and>
   sent (snd (datagramReceived msgpack responder (REQUEST_BYTE @ mid @ x_payload) alice)) = []"
proof -
  have one: "\<forall>funcname args. PList [PStr ''x''] \<noteq> PList [funcname, args]" by simp
  have dg: "22 \<le> length (REQUEST_BYTE @ mid @ x_payload) \<and>
      take 1 (REQUEST_BYTE @ mid @ x_payload) = REQUEST_BYTE \<and>
      unpackb msgpack (drop 21 (REQUEST_BYTE @ mid @ x_payload)) = Inr (PList [PStr ''x''])"
    by (simp add: REQUEST_BYTE_def mid_def msgpack_def unpack_x)
  have q: "lognoisy (ReceivedDatagram alice) responder = responder"
    by (simp add: lognoisy_def responder_def init_def)
  note T = malformed_request_rejected [of "PList [PStr ''x'']" msgpack responder mid alice
      "REQUEST_BYTE @ mid @ x_payload"]
  from T one have a: "acceptRequest msgpack responder mid (PList [PStr ''x'']) alice =
     (Inl (MalformedMessage (CouldNotReadPacket (PList [PStr ''x'']))), responder)"
    by blast
  from T one dg have b: "datagramReceived msgpack responder (REQUEST_BYTE @ mid @ x_payload) alice =
     (Inl (MalformedMessage (CouldNotReadPacket (PList [PStr ''x'']))),
      lognoisy (ReceivedDatagram alice) responder)"
    and c: "sent (snd (datagramReceived msgpack responder (REQUEST_BYTE @ mid @ x_payload) alice)) =
      sent responder"
    by blast+
  from a b c show ?thesis by (simp add: q)
qed

section \<open>Datagrams with an unknown tag\<close>

text \<open>
  A datagram of at least 22 bytes whose first byte is neither tag and whose payload
  decodes is logged and dropped.
\<close>

lemma unknown_tag_dropped:
  assumes "22 \<le> length datagram" and "take 1 datagram \<noteq> REQUEST_BYTE"
    and "take 1 datagram \<noteq> RESPONSE_BYTE" and "unpackb c (drop 21 datagram) = Inr data"
  shows "datagramReceived c s datagram address =
         (Inr (), logline (UnknownMessage address) (lognoisy (ReceivedDatagram address) s))"
  using assms by (simp add: datagramReceived_def Let_def)

text \<open>
  C6. The payload is unpacked before the tag is looked at, so a datagram with an unknown
  tag is dropped only if its payload decodes. This one has the tag \<open>0x00\<close>, a 20-byte id
  and the payload \<open>0xc1\<close>, the code MessagePack reserves: \<open>datagramReceived\<close> raises the
  codec's error instead of ignoring the datagram.
\<close>

theorem unknown_tag_undecodable_raises:
  "datagramReceived msgpack responder (0x00 # mid @ [0xc1]) alice = (Inl UnpackException, responder)"
  by (simp add: datagramReceived_def Let_def lognoisy_def mid_def msgpack_def mp_unpackb_def
      responder_def init_def)

end
